theory Spec2Isabelle
  imports Complex_Main "HOL-Library.Sublist"
begin

section \<open>Python strings\<close>

text \<open>
  A Python \<open>str\<close> is modelled as a \<open>string\<close>: one \<open>char\<close> per code point, for text whose
  code points lie below 256. \<open>isspace\<close> lists the code points below 256 that
  \<open>str.strip()\<close> removes: TAB, LF, VT, FF, CR, FS, GS, RS, US, SPACE, NEL and NBSP.
\<close>

definition isspace :: "char \<Rightarrow> bool" where
  "isspace c = (c \<in> set [CHR 0x09, CHR 0x0A, CHR 0x0B, CHR 0x0C, CHR 0x0D,
                          CHR 0x1C, CHR 0x1D, CHR 0x1E, CHR 0x1F, CHR 0x20,
                          CHR 0x85, CHR 0xA0])"

text \<open>\<open>s.strip()\<close>: whitespace removed at both ends.\<close>

definition py_strip :: "string \<Rightarrow> string" where
  "py_strip s = rev (dropWhile isspace (rev (dropWhile isspace s)))"

text \<open>
  \<open>s.split(sep)\<close> for a separator that is not empty: the fields between the
  occurrences of \<open>sep\<close>, found from left to right without overlap. \<open>split_from sep acc s\<close>
  is the scan with the field read so far in \<open>acc\<close>. (Python raises ValueError on an empty
  separator; the program only ever passes the literals \<open>'\n'\<close>, \<open>': '\<close> and \<open>':'\<close>, and the
  scan below then treats the text as one field.)
\<close>

function split_from :: "string \<Rightarrow> string \<Rightarrow> string \<Rightarrow> string list" where
  "split_from sep acc [] = [acc]"
| "split_from sep acc (c # cs) =
     (if sep \<noteq> [] \<and> prefix sep (c # cs)
      then acc # split_from sep [] (drop (length sep) (c # cs))
      else split_from sep (acc @ [c]) cs)"
  by pat_completeness auto
termination
  by (relation "measure (\<lambda>(sep, acc, s). length s)") (auto simp: neq_Nil_conv)

definition py_split :: "string \<Rightarrow> string \<Rightarrow> string list" where
  "py_split s sep = split_from sep [] s"

text \<open>\<open>sub in s\<close> on strings: \<open>sub\<close> occurs in \<open>s\<close> as a contiguous run.\<close>

fun py_in :: "string \<Rightarrow> string \<Rightarrow> bool" where
  "py_in sub [] = (sub = [])"
| "py_in sub (c # cs) = (prefix sub (c # cs) \<or> py_in sub cs)"

text \<open>Truthiness of an optional string (\<open>None\<close> and \<open>''\<close> are false) and of an optional int.\<close>

fun truthy_str :: "string option \<Rightarrow> bool" where
  "truthy_str None = False"
| "truthy_str (Some s) = (s \<noteq> [])"

fun truthy_int :: "int option \<Rightarrow> bool" where
  "truthy_int None = False"
| "truthy_int (Some n) = (n \<noteq> 0)"

text \<open>\<open>os.path.join(a, b)\<close> on POSIX.\<close>

definition os_path_join :: "string \<Rightarrow> string \<Rightarrow> string" where
  "os_path_join a b =
     (if b \<noteq> [] \<and> hd b = CHR ''/'' then b
      else if a = [] \<or> last a = CHR ''/'' then a @ b
      else a @ ''/'' @ b)"

section \<open>Library functions and the operating system\<close>

text \<open>
  The program calls three functions of Python's library whose meaning is not fixed by the
  repository. They are parameters of the model:
  \<^item> \<open>py_float s\<close> is \<open>float(s)\<close>: \<open>None\<close> when it raises ValueError;
  \<^item> \<open>re_match p s\<close> is \<open>re.match(p, s)\<close>: \<open>Some True\<close> for a match object, \<open>Some False\<close>
    for \<open>None\<close>, and \<open>None\<close> when the pattern does not compile (\<open>re.error\<close>);
  \<^item> \<open>py_int s\<close> is \<open>int(s)\<close>: \<open>None\<close> when it raises ValueError.
\<close>

record 'v pylib =
  py_float :: "string \<Rightarrow> 'v option"
  re_match :: "string \<Rightarrow> string \<Rightarrow> bool option"
  py_int :: "string \<Rightarrow> int option"

text \<open>
  What \<open>subprocess.Popen(command, stdout=PIPE)\<close> followed by \<open>communicate()\<close> gives: one of
  the exceptions of \<open>Popen\<close>, or the return code with the captured output. The output is kept
  as \<open>decode('utf-8')\<close> reads it: \<open>None\<close> when the bytes are not UTF-8.
\<close>

datatype popen_result =
  PopenFileNotFound
| PopenPermissionError
| PopenOSError
| Exited int "string option"

text \<open>
  The operating system as one collection cycle sees it: \<open>os.listdir\<close> (\<open>None\<close> when it raises
  OSError), \<open>os.readlink\<close> (\<open>None\<close> for a path that is not a symbolic link, so that
  \<open>os.path.islink p\<close> is \<open>readlink p \<noteq> None\<close>), the outcome of running a command, whether the
  text file can be written, and whether the HTTP server can bind its address.
\<close>

record os_state =
  listdir :: "string \<Rightarrow> string list option"
  readlink :: "string \<Rightarrow> string option"
  popen :: "string list \<Rightarrow> popen_result"
  textfile_writable :: "string \<Rightarrow> bool"
  http_bind :: "string \<Rightarrow> int \<Rightarrow> bool"

text \<open>Exceptions that leave a function, and the records the program logs.\<close>

datatype exn =
  SystemExit nat | OSError | ReError | UnicodeDecodeError | ValueError | TypeError

datatype log_msg =
  ErrOneshot
| ErrInterval
| CritNotFound
| CritPermission
| CritNonZero string
| WarnFailedParsing string
| WarnAlreadySeen string string

text \<open>The exit status of the interpreter when an exception reaches the top level.\<close>

fun exit_status :: "exn \<Rightarrow> nat" where
  "exit_status (SystemExit n) = n"
| "exit_status _ = 1"

section \<open>Command line\<close>

text \<open>
  The command line as \<open>argparse\<close> tokenises it: the occurrences of the options that
  \<open>_parse_args\<close> declares, in order, \<open>--interval\<close> with its value converted by \<open>type=int\<close>.
\<close>

datatype cli_opt =
  OptTextfileName string
| OptListen string
| OptInterval int
| OptInterfaceRegex string
| OptOneshot
| OptWhitelistRegex string
| OptBlacklistRegex string

datatype action =
  ATextfileName | AListen | AInterval | AInterfaceRegex | AOneshot | AWhitelistRegex
| ABlacklistRegex

record args =
  textfile_name :: "string option"
  listen :: "string option"
  interval :: "int option"
  interface_regex :: string
  oneshot :: bool
  whitelist_regex :: "string option"
  blacklist_regex :: "string option"

text \<open>The namespace before any option is read: the declared defaults.\<close>

definition default_args :: args where
  "default_args =
     \<lparr>textfile_name = None, listen = None, interval = None, interface_regex = ''.*'',
      oneshot = False, whitelist_regex = None, blacklist_regex = None\<rparr>"

fun action_of :: "cli_opt \<Rightarrow> action" where
  "action_of (OptTextfileName _) = ATextfileName"
| "action_of (OptListen _) = AListen"
| "action_of (OptInterval _) = AInterval"
| "action_of (OptInterfaceRegex _) = AInterfaceRegex"
| "action_of OptOneshot = AOneshot"
| "action_of (OptWhitelistRegex _) = AWhitelistRegex"
| "action_of (OptBlacklistRegex _) = ABlacklistRegex"

text \<open>
  The two mutually exclusive groups of \<open>_parse_args\<close>: \<open>-f\<close> against \<open>-l\<close> (a required group)
  and \<open>-w\<close> against \<open>-b\<close>.
\<close>

fun conflicts :: "action \<Rightarrow> action list" where
  "conflicts ATextfileName = [AListen]"
| "conflicts AListen = [ATextfileName]"
| "conflicts AWhitelistRegex = [ABlacklistRegex]"
| "conflicts ABlacklistRegex = [AWhitelistRegex]"
| "conflicts _ = []"

fun store :: "cli_opt \<Rightarrow> args \<Rightarrow> args" where
  "store (OptTextfileName s) ns = ns\<lparr>textfile_name := Some s\<rparr>"
| "store (OptListen s) ns = ns\<lparr>listen := Some s\<rparr>"
| "store (OptInterval n) ns = ns\<lparr>interval := Some n\<rparr>"
| "store (OptInterfaceRegex s) ns = ns\<lparr>interface_regex := s\<rparr>"
| "store OptOneshot ns = ns\<lparr>oneshot := True\<rparr>"
| "store (OptWhitelistRegex s) ns = ns\<lparr>whitelist_regex := Some s\<rparr>"
| "store (OptBlacklistRegex s) ns = ns\<lparr>blacklist_regex := Some s\<rparr>"

text \<open>
  \<open>parser.parse_args\<close>: every option is stored in turn; an option of a group whose other
  member was seen before is an error, and so is a command line with neither \<open>-f\<close> nor \<open>-l\<close>.
  \<open>ArgumentParser.error\<close> prints the usage and exits with status 2.
\<close>

fun take_actions :: "cli_opt list \<Rightarrow> action set \<Rightarrow> args \<Rightarrow> exn + action set \<times> args" where
  "take_actions [] seen ns = Inr (seen, ns)"
| "take_actions (x # xs) seen ns =
     (if \<exists>c \<in> set (conflicts (action_of x)). c \<in> seen then Inl (SystemExit 2)
      else take_actions xs (insert (action_of x) seen) (store x ns))"

definition argparse_parse_args :: "cli_opt list \<Rightarrow> exn + args" where
  "argparse_parse_args opts =
     (case take_actions opts {} default_args of
        Inl e \<Rightarrow> Inl e
      | Inr (seen, ns) \<Rightarrow>
          if ATextfileName \<notin> seen \<and> AListen \<notin> seen then Inl (SystemExit 2) else Inr ns)"

text \<open>\<open>EthtoolCollector._parse_args\<close>, with what it logs.\<close>

definition parse_args :: "cli_opt list \<Rightarrow> log_msg list \<times> (exn + args)" where
  "parse_args opts =
     (case argparse_parse_args opts of
        Inl e \<Rightarrow> ([], Inl e)
      | Inr arguments \<Rightarrow>
          if oneshot arguments \<and> \<not> truthy_str (textfile_name arguments)
          then ([ErrOneshot], Inl (SystemExit 1))
          else if truthy_int (interval arguments) \<and> \<not> truthy_str (textfile_name arguments)
          then ([ErrInterval], Inl (SystemExit 1))
          else if \<not> truthy_int (interval arguments)
          then ([], Inr (arguments\<lparr>interval := Some 5\<rparr>))
          else ([], Inr arguments))"

section \<open>Name filter\<close>

text \<open>\<open>EthtoolCollector.whitelist_blacklist_check\<close>.\<close>

definition whitelist_blacklist_check :: "'v pylib \<Rightarrow> args \<Rightarrow> string \<Rightarrow> exn + bool" where
  "whitelist_blacklist_check lib a stat_name =
     (if truthy_str (whitelist_regex a) then
        (case whitelist_regex a of
           None \<Rightarrow> Inr True
         | Some w \<Rightarrow>
            (case re_match lib w stat_name of
               None \<Rightarrow> Inl ReError
             | Some m \<Rightarrow> if m then Inr True else Inr False))
      else if truthy_str (blacklist_regex a) then
        (case blacklist_regex a of
           None \<Rightarrow> Inr True
         | Some b \<Rightarrow>
            (case re_match lib b stat_name of
               None \<Rightarrow> Inl ReError
             | Some m \<Rightarrow> if m then Inr False else Inr True))
      else Inr True)"

section \<open>Counter parsing and the snapshot of one interface\<close>

text \<open>
  The gauge of one collection cycle: the samples added with \<open>add_metric\<close> (label values and
  value), in order, together with the records logged so far.
\<close>

record 'v cstate =
  samples :: "(string list \<times> 'v) list"
  logs :: "log_msg list"

text \<open>
  What the body of the loop of \<open>update_ethtool_stats\<close> makes of one line before the name
  filter: the line is dropped silently (empty, or the header), it fails to parse (the
  \<open>except ValueError\<close> branch, with the stripped line of the warning), or it gives a key and
  a value. Unpacking \<open>key, value = line.split(': ')\<close> raises ValueError unless the split has
  exactly two fields.
\<close>

datatype 'v parsed = Skipped | Failed string | Parsed string 'v

definition parse_line :: "'v pylib \<Rightarrow> string \<Rightarrow> 'v parsed" where
  "parse_line lib line0 =
     (if line0 = [] \<or> line0 = ''NIC statistics:'' then Skipped
      else
        let line = py_strip line0 in
        (case py_split line '': '' of
           [key, val] \<Rightarrow>
             (case py_float lib (py_strip val) of
                None \<Rightarrow> Failed line
              | Some v \<Rightarrow> Parsed (py_strip key) v)
         | _ \<Rightarrow> Failed line))"

text \<open>The \<open>for line in data\<close> loop, with \<open>key_set\<close> and the gauge as its state.\<close>

fun lines_loop ::
  "'v pylib \<Rightarrow> args \<Rightarrow> string \<Rightarrow> string list \<Rightarrow> string set \<Rightarrow> 'v cstate
    \<Rightarrow> exn option \<times> 'v cstate" where
  "lines_loop lib a iface [] key_set st = (None, st)"
| "lines_loop lib a iface (line # rest) key_set st =
     (case parse_line lib line of
        Skipped \<Rightarrow> lines_loop lib a iface rest key_set st
      | Failed l \<Rightarrow>
          lines_loop lib a iface rest key_set (st\<lparr>logs := logs st @ [WarnFailedParsing l]\<rparr>)
      | Parsed key v \<Rightarrow>
          (case whitelist_blacklist_check lib a key of
             Inl e \<Rightarrow> (Some e, st)
           | Inr ok \<Rightarrow>
               if \<not> ok then lines_loop lib a iface rest key_set st
               else if key \<notin> key_set
               then lines_loop lib a iface rest (insert key key_set)
                      (st\<lparr>samples := samples st @ [([iface, key], v)]\<rparr>)
               else lines_loop lib a iface rest key_set
                      (st\<lparr>logs := logs st @ [WarnAlreadySeen key iface]\<rparr>)))"

text \<open>
  \<open>EthtoolCollector.update_ethtool_stats\<close>: the first component is the exception that leaves
  the call, \<open>None\<close> when it returns.
\<close>

definition update_ethtool_stats ::
  "'v pylib \<Rightarrow> os_state \<Rightarrow> args \<Rightarrow> string \<Rightarrow> 'v cstate \<Rightarrow> exn option \<times> 'v cstate" where
  "update_ethtool_stats lib os a iface st =
     (case popen os [''/sbin/ethtool'', ''-S'', iface] of
        PopenFileNotFound \<Rightarrow> (Some (SystemExit 1), st\<lparr>logs := logs st @ [CritNotFound]\<rparr>)
      | PopenPermissionError \<Rightarrow> (Some (SystemExit 1), st\<lparr>logs := logs st @ [CritPermission]\<rparr>)
      | PopenOSError \<Rightarrow> (Some OSError, st)
      | Exited returncode data \<Rightarrow>
          if returncode \<noteq> 0 then (None, st\<lparr>logs := logs st @ [CritNonZero iface]\<rparr>)
          else
            (case data of
               None \<Rightarrow> (Some UnicodeDecodeError, st)
             | Some text \<Rightarrow> lines_loop lib a iface (py_split text [CHR 0x0A]) {} st))"

section \<open>Interface enumeration and collection\<close>

text \<open>
  \<open>EthtoolCollector.find_physical_interfaces\<close> is a generator. It only reads, so it is
  modelled by the sequence of what it hands to its consumer: the names it yields, ended
  by the exception it raises if it raises one.
\<close>

datatype gen_item = Yield string | GenRaise exn

fun find_loop :: "'v pylib \<Rightarrow> os_state \<Rightarrow> args \<Rightarrow> string \<Rightarrow> string list \<Rightarrow> gen_item list" where
  "find_loop lib os a root_dir [] = []"
| "find_loop lib os a root_dir (file # rest) =
     (case readlink os (os_path_join root_dir file) of
        None \<Rightarrow> find_loop lib os a root_dir rest
      | Some target \<Rightarrow>
          if py_in ''virtual'' target then find_loop lib os a root_dir rest
          else
            (case re_match lib (interface_regex a) file of
               None \<Rightarrow> [GenRaise ReError]
             | Some m \<Rightarrow>
                 if m then Yield file # find_loop lib os a root_dir rest
                 else find_loop lib os a root_dir rest))"

definition find_physical_interfaces :: "'v pylib \<Rightarrow> os_state \<Rightarrow> args \<Rightarrow> gen_item list" where
  "find_physical_interfaces lib os a =
     (case listdir os ''/sys/class/net'' of
        None \<Rightarrow> [GenRaise OSError]
      | Some files \<Rightarrow> find_loop lib os a ''/sys/class/net'' files)"

text \<open>\<open>EthtoolCollector.collect\<close>, driven to its end: a fresh gauge, filled interface by interface.\<close>

fun collect_loop ::
  "'v pylib \<Rightarrow> os_state \<Rightarrow> args \<Rightarrow> gen_item list \<Rightarrow> 'v cstate \<Rightarrow> exn option \<times> 'v cstate" where
  "collect_loop lib os a [] st = (None, st)"
| "collect_loop lib os a (GenRaise e # rest) st = (Some e, st)"
| "collect_loop lib os a (Yield iface # rest) st =
     (case update_ethtool_stats lib os a iface st of
        (Some e, st') \<Rightarrow> (Some e, st')
      | (None, st') \<Rightarrow> collect_loop lib os a rest st')"

definition collect :: "'v pylib \<Rightarrow> os_state \<Rightarrow> args \<Rightarrow> exn option \<times> 'v cstate" where
  "collect lib os a =
     collect_loop lib os a (find_physical_interfaces lib os a) \<lparr>samples = [], logs = []\<rparr>"

section \<open>Publication\<close>

text \<open>
  What the process does that its environment can observe: a temporary file is created
  beside the text file, a collection cycle is started, a snapshot is written to the text
  file, the process sleeps.
\<close>

datatype 'v event =
  CreateTempfile string
| CollectionCycle
| WriteTextfile string "(string list \<times> 'v) list"
| Sleep int

text \<open>
  \<open>prometheus_client.write_to_textfile(path, registry)\<close>: it opens a temporary file beside
  \<open>path\<close>, asks the registry for its metrics, which runs \<open>collect\<close> once, writes them and
  renames the file over \<open>path\<close>. When the collection raises, the temporary file has been
  created and stays. The result is the exception that leaves the call, if any, and the
  events of the call.
\<close>

definition write_to_textfile ::
  "'v pylib \<Rightarrow> os_state \<Rightarrow> args \<Rightarrow> string \<Rightarrow> exn option \<times> 'v event list" where
  "write_to_textfile lib os a path =
     (if \<not> textfile_writable os path then (Some OSError, [])
      else
        (case collect lib os a of
           (Some e, st) \<Rightarrow> (Some e, [CreateTempfile path, CollectionCycle])
         | (None, st) \<Rightarrow>
             (None, [CreateTempfile path, CollectionCycle, WriteTextfile path (samples st)])))"

text \<open>
  The \<open>while True\<close> loop of text file mode; \<open>world n\<close> is the operating system during the
  \<open>n\<close>-th cycle. \<open>collector.collect()\<close> on the first line of the body only creates a generator
  that nobody runs, so it does nothing. \<open>time.sleep\<close> raises ValueError on a negative length.
  The result is the exit status with the events so far; \<open>None\<close> when the loop never ends.
\<close>

partial_function (option) textfile_loop ::
  "'v pylib \<Rightarrow> (nat \<Rightarrow> os_state) \<Rightarrow> args \<Rightarrow> string \<Rightarrow> nat \<Rightarrow> 'v event list
    \<Rightarrow> (nat \<times> 'v event list) option" where
  "textfile_loop lib world a path n tr =
     (case write_to_textfile lib (world n) a path of
        (Some e, evs) \<Rightarrow> Some (exit_status e, tr @ evs)
      | (None, evs) \<Rightarrow>
          if oneshot a then Some (0, tr @ evs)
          else
            (case interval a of
               None \<Rightarrow> Some (exit_status TypeError, tr @ evs)
             | Some secs \<Rightarrow>
                 if secs < 0 then Some (exit_status ValueError, tr @ evs)
                 else textfile_loop lib world a path (Suc n) (tr @ evs @ [Sleep secs])))"

text \<open>
  Serve mode: the address is split at \<open>':'\<close> into exactly two fields (unpacking raises
  ValueError otherwise), the port is converted with \<open>int\<close>, the HTTP server is started, and
  the main thread sleeps for ever. Collection then happens inside the HTTP library, on
  each scrape, outside the main thread.
\<close>

definition serve :: "'v pylib \<Rightarrow> os_state \<Rightarrow> string \<Rightarrow> (nat \<times> 'v event list) option" where
  "serve lib os addr =
     (case py_split addr '':'' of
        [ip, port] \<Rightarrow>
          (case py_int lib port of
             None \<Rightarrow> Some (exit_status ValueError, [])
           | Some p \<Rightarrow> if http_bind os ip p then None else Some (exit_status OSError, []))
      | _ \<Rightarrow> Some (exit_status ValueError, []))"

text \<open>
  The script's \<open>__main__\<close> block, from the command line to the exit status of the process
  and the events it produced; \<open>None\<close> when the process runs until it is killed.
\<close>

definition run_textfile ::
  "'v pylib \<Rightarrow> (nat \<Rightarrow> os_state) \<Rightarrow> args \<Rightarrow> (nat \<times> 'v event list) option" where
  "run_textfile lib world a =
     (case textfile_name a of
        None \<Rightarrow> Some (0, [])
      | Some path \<Rightarrow> if path \<noteq> [] then textfile_loop lib world a path 0 [] else Some (0, []))"

definition main ::
  "'v pylib \<Rightarrow> (nat \<Rightarrow> os_state) \<Rightarrow> cli_opt list \<Rightarrow> (nat \<times> 'v event list) option" where
  "main lib world opts =
     (case snd (parse_args opts) of
        Inl e \<Rightarrow> Some (exit_status e, [])
      | Inr a \<Rightarrow>
          (case listen a of
             None \<Rightarrow> run_textfile lib world a
           | Some addr \<Rightarrow>
               if addr \<noteq> [] then serve lib (world 0) addr else run_textfile lib world a))"

section \<open>A concrete library for worked examples\<close>

text \<open>
  The worked examples need a library to run on. The one below behaves as Python's on a
  fragment of its inputs and is left unspecified (\<open>undefined\<close>) outside it, so that nothing
  can be derived from it there.

  \<open>re.match\<close> on the patterns built from ordinary characters, \<open>.\<close>, a postfix \<open>*\<close>, \<open>^\<close> and
  \<open>$\<close>. A pattern is a sequence of items; \<open>re_run items at_start s\<close> says whether the items
  match some prefix of the remaining text \<open>s\<close>, \<open>at_start\<close> telling whether \<open>s\<close> is the whole
  subject. \<open>.\<close> matches any character but a newline, \<open>$\<close> matches at the end of the subject
  and before a newline that ends it, and a \<open>*\<close> with nothing to repeat is \<open>re.error\<close>. A
  pattern that uses any other special character (\<open>+ ? { } [ ] \ | ( )\<close>) is outside the
  fragment (\<open>re_basic\<close> is false).
\<close>

datatype re_atom = Lit char | AnyChar

datatype re_item = One re_atom | Star re_atom | Bol | Eol

definition re_unsupported :: "char list" where
  "re_unsupported = [CHR ''+'', CHR ''?'', CHR ''{'', CHR ''}'', CHR ''['', CHR '']'',
                     CHR 0x5C, CHR ''|'', CHR ''('', CHR '')'']"

definition re_basic :: "string \<Rightarrow> bool" where
  "re_basic pattern = list_all (\<lambda>c. c \<notin> set re_unsupported) pattern"

fun re_parse :: "string \<Rightarrow> re_item list option" where
  "re_parse [] = Some []"
| "re_parse (c # cs) =
     (if c = CHR ''*'' then None
      else if c = CHR ''^'' then map_option ((#) Bol) (re_parse cs)
      else if c = CHR ''$'' then map_option ((#) Eol) (re_parse cs)
      else
        let atom = (if c = CHR ''.'' then AnyChar else Lit c) in
        if cs \<noteq> [] \<and> hd cs = CHR ''*'' then map_option ((#) (Star atom)) (re_parse (tl cs))
        else map_option ((#) (One atom)) (re_parse cs))"

fun atom_ok :: "re_atom \<Rightarrow> char \<Rightarrow> bool" where
  "atom_ok (Lit d) c = (c = d)"
| "atom_ok AnyChar c = (c \<noteq> CHR 0x0A)"

fun re_run :: "re_item list \<Rightarrow> bool \<Rightarrow> string \<Rightarrow> bool" where
  "re_run [] at_start s = True"
| "re_run (One x # items) at_start [] = False"
| "re_run (One x # items) at_start (c # cs) = (atom_ok x c \<and> re_run items False cs)"
| "re_run (Star x # items) at_start [] = re_run items at_start []"
| "re_run (Star x # items) at_start (c # cs) =
     (re_run items at_start (c # cs) \<or> (atom_ok x c \<and> re_run (Star x # items) False cs))"
| "re_run (Bol # items) at_start s = (at_start \<and> re_run items at_start s)"
| "re_run (Eol # items) at_start s = ((s = [] \<or> s = [CHR 0x0A]) \<and> re_run items at_start s)"

definition basic_re_match :: "string \<Rightarrow> string \<Rightarrow> bool option" where
  "basic_re_match pattern s =
     (if re_basic pattern then map_option (\<lambda>items. re_run items True s) (re_parse pattern)
      else undefined pattern s)"

text \<open>
  \<open>float\<close> and \<open>int\<close> on three kinds of strings: the empty string and the strings with a
  character that no float (no int) literal can contain, where they raise ValueError, and
  the strings of ASCII digits, where the float of a value below \<open>2 ^ 53\<close> is the number
  itself. Every other string is outside the fragment.
\<close>

definition is_digit :: "char \<Rightarrow> bool" where
  "is_digit c = (c \<in> set ''0123456789'')"

definition float_char :: "char \<Rightarrow> bool" where
  "float_char c = (is_digit c \<or> isspace c \<or> c \<in> set ''+-._eEinfatyINFATY'')"

definition int_char :: "char \<Rightarrow> bool" where
  "int_char c = (is_digit c \<or> isspace c \<or> c \<in> set ''+-_'')"

definition decimal :: "string \<Rightarrow> nat" where
  "decimal s = foldl (\<lambda>n c. 10 * n + (of_char c - 48)) 0 s"

definition decimal_float :: "string \<Rightarrow> real option" where
  "decimal_float s =
     (if s = [] \<or> \<not> list_all float_char s then None
      else if list_all is_digit s \<and> decimal s < 2 ^ 53 then Some (real (decimal s))
      else undefined s)"

definition decimal_int :: "string \<Rightarrow> int option" where
  "decimal_int s =
     (if s = [] \<or> \<not> list_all int_char s then None
      else if list_all is_digit s then Some (int (decimal s))
      else undefined s)"

definition basic_lib :: "real pylib" where
  "basic_lib = \<lparr>py_float = decimal_float, re_match = basic_re_match, py_int = decimal_int\<rparr>"

text \<open>An operating system with no network device, where every file can be written.\<close>

definition quiet_os :: os_state where
  "quiet_os =
     \<lparr>listdir = (\<lambda>p. Some []), readlink = (\<lambda>p. None), popen = (\<lambda>c. PopenFileNotFound),
      textfile_writable = (\<lambda>p. True), http_bind = (\<lambda>ip port. True)\<rparr>"

section \<open>Notions used in the statements\<close>

text \<open>
  The bookkeeping of \<open>argparse\<close> agrees with the namespace: a destination of a group is
  set exactly when its option was seen, and no two options of one group were seen.
\<close>

definition group_inv :: "action set \<Rightarrow> args \<Rightarrow> bool" where
  "group_inv seen ns =
     ((textfile_name ns \<noteq> None) = (ATextfileName \<in> seen) \<and>
      (listen ns \<noteq> None) = (AListen \<in> seen) \<and>
      (whitelist_regex ns \<noteq> None) = (AWhitelistRegex \<in> seen) \<and>
      (blacklist_regex ns \<noteq> None) = (ABlacklistRegex \<in> seen) \<and>
      \<not> (ATextfileName \<in> seen \<and> AListen \<in> seen) \<and>
      \<not> (AWhitelistRegex \<in> seen \<and> ABlacklistRegex \<in> seen))"

text \<open>A pattern of ordinary characters only: it denotes itself.\<close>

definition re_plain :: "string \<Rightarrow> bool" where
  "re_plain p = list_all (\<lambda>c. c \<notin> set re_unsupported \<and> c \<notin> set ''.^$*'') p"

text \<open>
  A machine with the physical device \<open>eth0\<close> and the loopback device \<open>lo\<close>, where every
  command ends as \<open>r\<close> says; and the same machine with an unreadable device listing.
\<close>

definition nic_os :: "popen_result \<Rightarrow> os_state" where
  "nic_os r =
     \<lparr>listdir = (\<lambda>p. if p = ''/sys/class/net'' then Some [''lo'', ''eth0''] else None),
      readlink = (\<lambda>p.
         if p = ''/sys/class/net/eth0'' then Some ''../../devices/pci0000:00/0000:00:03.0/net/eth0''
         else if p = ''/sys/class/net/lo'' then Some ''../../devices/virtual/net/lo''
         else None),
      popen = (\<lambda>c. r),
      textfile_writable = (\<lambda>p. True),
      http_bind = (\<lambda>ip port. True)\<rparr>"

definition unreadable_os :: os_state where
  "unreadable_os = quiet_os\<lparr>listdir := (\<lambda>p. None)\<rparr>"



text \<open>The output of \<open>ethtool -S\<close> in the worked example: a header and three counter lines.\<close>

definition example_output :: string where
  "example_output =
     ''NIC statistics:\<newline>rx_packets: 100\<newline>rx_errors: 0\<newline>rx_packets: 999\<newline>''"

text \<open>
  The spec's wording for a virtual device: the target path has a segment, between two
  \<open>/\<close>, that is the marker itself.
\<close>

definition contains_segment :: "string \<Rightarrow> string \<Rightarrow> bool" where
  "contains_segment marker path = (marker \<in> set (py_split path ''/''))"

text \<open>A machine whose only device is a physical one that the administrator named \<open>virtual0\<close>.\<close>

definition virtual0_os :: os_state where
  "virtual0_os =
     \<lparr>listdir = (\<lambda>p. if p = ''/sys/class/net'' then Some [''virtual0''] else None),
      readlink = (\<lambda>p.
         if p = ''/sys/class/net/virtual0''
         then Some ''../../devices/pci0000:00/0000:00:03.0/net/virtual0''
         else None),
      popen = (\<lambda>c. Exited 0 (Some [])),
      textfile_writable = (\<lambda>p. True),
      http_bind = (\<lambda>ip port. True)\<rparr>"

text \<open>
  The duplicate policy in the spec's words. \<open>candidates\<close> are the pairs that the lines of
  one interface give after parsing and name filtering, in order; \<open>first_occurrences\<close> keeps,
  for every name, the first pair and drops the later ones; \<open>yields\<close> are the names a
  generator hands over.
\<close>

definition candidates :: "'v pylib \<Rightarrow> args \<Rightarrow> string list \<Rightarrow> (string \<times> 'v) list" where
  "candidates lib a ls =
     concat (map (\<lambda>l. case parse_line lib l of
                          Parsed k v \<Rightarrow>
                            if whitelist_blacklist_check lib a k = Inr True then [(k, v)] else []
                        | _ \<Rightarrow> []) ls)"

function first_occurrences :: "('k \<times> 'v) list \<Rightarrow> ('k \<times> 'v) list" where
  "first_occurrences [] = []"
| "first_occurrences (x # xs) = x # first_occurrences (filter (\<lambda>y. fst y \<noteq> fst x) xs)"
  by pat_completeness auto
termination
  by (relation "measure length") (auto simp: less_Suc_eq_le)

definition yields :: "gen_item list \<Rightarrow> string list" where
  "yields items = concat (map (\<lambda>x. case x of Yield i \<Rightarrow> [i] | GenRaise e \<Rightarrow> []) items)"

section \<open>Command line: what an accepted configuration satisfies\<close>

lemma take_actions_inv:
  "take_actions xs seen ns = Inr (seen', ns') \<Longrightarrow> group_inv seen ns \<Longrightarrow> group_inv seen' ns'"
proof (induction xs arbitrary: seen ns)
  case Nil
  then show ?case by simp
next
  case (Cons x xs)
  from Cons.prems(1) have noconf: "\<not> (\<exists>c \<in> set (conflicts (action_of x)). c \<in> seen)"
    and rest: "take_actions xs (insert (action_of x) seen) (store x ns) = Inr (seen', ns')"
    by (auto split: if_splits)
  have "group_inv (insert (action_of x) seen) (store x ns)"
    using Cons.prems(2) noconf by (cases x) (auto simp: group_inv_def)
  with Cons.IH rest show ?case by blast
qed

lemma group_invD:
  assumes "group_inv seen ns"
  shows "whitelist_regex ns = None \<or> blacklist_regex ns = None"
    and "textfile_name ns = None \<or> listen ns = None"
    and "ATextfileName \<in> seen \<Longrightarrow> textfile_name ns \<noteq> None"
    and "AListen \<in> seen \<Longrightarrow> listen ns \<noteq> None"
proof -
  from assms have w: "(whitelist_regex ns \<noteq> None) = (AWhitelistRegex \<in> seen)"
    and b: "(blacklist_regex ns \<noteq> None) = (ABlacklistRegex \<in> seen)"
    and t: "(textfile_name ns \<noteq> None) = (ATextfileName \<in> seen)"
    and l: "(listen ns \<noteq> None) = (AListen \<in> seen)"
    and x1: "\<not> (ATextfileName \<in> seen \<and> AListen \<in> seen)"
    and x2: "\<not> (AWhitelistRegex \<in> seen \<and> ABlacklistRegex \<in> seen)"
    by (simp_all add: group_inv_def)
  from w b x2 show "whitelist_regex ns = None \<or> blacklist_regex ns = None" by blast
  from t l x1 show "textfile_name ns = None \<or> listen ns = None" by blast
  from t show "ATextfileName \<in> seen \<Longrightarrow> textfile_name ns \<noteq> None" by blast
  from l show "AListen \<in> seen \<Longrightarrow> listen ns \<noteq> None" by blast
qed

lemma argparse_groups:
  assumes "argparse_parse_args opts = Inr a"
  shows "(whitelist_regex a = None \<or> blacklist_regex a = None) \<and>
         (textfile_name a = None \<or> listen a = None) \<and>
         (textfile_name a \<noteq> None \<or> listen a \<noteq> None)"
proof (cases "take_actions opts {} default_args")
  case (Inl e)
  with assms show ?thesis by (simp add: argparse_parse_args_def)
next
  case (Inr r)
  obtain seen ns where r: "r = (seen, ns)" by (cases r)
  have g0: "group_inv {} default_args" by (simp add: group_inv_def default_args_def)
  have t: "take_actions opts {} default_args = Inr (seen, ns)" using Inr r by simp
  have g: "group_inv seen ns" using t g0 by (rule take_actions_inv)
  have req: "ATextfileName \<in> seen \<or> AListen \<in> seen"
    using assms unfolding argparse_parse_args_def t by (simp split: if_splits)
  have a: "a = ns"
    using assms unfolding argparse_parse_args_def t by (simp split: if_splits)
  from req have "textfile_name ns \<noteq> None \<or> listen ns \<noteq> None"
    using group_invD(3,4)[OF g] by blast
  with group_invD(1,2)[OF g] show ?thesis unfolding a by simp
qed

lemma parse_args_groups:
  assumes "snd (parse_args opts) = Inr a"
  shows "(whitelist_regex a = None \<or> blacklist_regex a = None) \<and>
         (textfile_name a = None \<or> listen a = None) \<and>
         (textfile_name a \<noteq> None \<or> listen a \<noteq> None) \<and>
         interval a \<noteq> None \<and> interval a \<noteq> Some 0"
proof (cases "argparse_parse_args opts")
  case (Inl e)
  with assms show ?thesis by (simp add: parse_args_def)
next
  case (Inr a0)
  note g = argparse_groups[OF Inr]
  show ?thesis
  proof (cases "truthy_int (interval a0)")
    case True
    with assms Inr have "a = a0" by (simp add: parse_args_def split: if_splits)
    moreover from True have "interval a0 \<noteq> None \<and> interval a0 \<noteq> Some 0"
      by (cases "interval a0") auto
    ultimately show ?thesis using g by simp
  next
    case False
    with assms Inr have "a = a0\<lparr>interval := Some 5\<rparr>"
      by (simp add: parse_args_def split: if_splits)
    then show ?thesis using g by simp
  qed
qed

lemma argparse_take_actions:
  assumes "argparse_parse_args opts = Inr ns"
  shows "\<exists>seen. take_actions opts {} default_args = Inr (seen, ns)"
proof (cases "take_actions opts {} default_args")
  case (Inl e)
  with assms show ?thesis by (simp add: argparse_parse_args_def)
next
  case (Inr r)
  obtain seen ns' where r: "r = (seen, ns')" by (cases r)
  have t: "take_actions opts {} default_args = Inr (seen, ns')" using Inr r by simp
  have "ns = ns'" using assms unfolding argparse_parse_args_def t by (simp split: if_splits)
  with t show ?thesis by blast
qed

lemma parse_args_argparse:
  assumes "snd (parse_args opts) = Inr a"
  shows "\<exists>ns. argparse_parse_args opts = Inr ns \<and>
           a = (if truthy_int (interval ns) then ns else ns\<lparr>interval := Some 5\<rparr>)"
proof (cases "argparse_parse_args opts")
  case (Inl e)
  with assms show ?thesis by (simp add: parse_args_def)
next
  case (Inr ns)
  with assms have "a = (if truthy_int (interval ns) then ns else ns\<lparr>interval := Some 5\<rparr>)"
    by (simp add: parse_args_def split: if_splits)
  with Inr show ?thesis by blast
qed

section \<open>The regular expressions of the worked examples\<close>

lemma re_parse_plain: "re_plain p \<Longrightarrow> re_parse p = Some (map (\<lambda>c. One (Lit c)) p)"
proof (induction p)
  case Nil
  then show ?case by simp
next
  case (Cons c cs)
  then have c: "c \<noteq> CHR ''*''" "c \<noteq> CHR ''.''" "c \<noteq> CHR ''^''" "c \<noteq> CHR ''$''"
    and cs: "re_plain cs"
    by (auto simp: re_plain_def)
  have star: "\<not> (cs \<noteq> [] \<and> hd cs = CHR ''*'')"
    using cs by (cases cs) (auto simp: re_plain_def)
  from c star Cons.IH[OF cs] show ?case by (simp add: Let_def)
qed

lemma re_run_plain: "re_run (map (\<lambda>c. One (Lit c)) p) b s = prefix p s"
proof (induction p arbitrary: b s)
  case Nil
  then show ?case by simp
next
  case (Cons c cs)
  then show ?case by (cases s) auto
qed

lemma re_plain_basic: "re_plain p \<Longrightarrow> re_basic p"
  by (induction p) (auto simp: re_plain_def re_basic_def)

lemma basic_re_match_plain: "re_plain p \<Longrightarrow> basic_re_match p s = Some (prefix p s)"
  by (simp add: basic_re_match_def re_plain_basic re_parse_plain re_run_plain)

lemma basic_re_match_empty: "basic_re_match [] s = Some True"
  by (simp add: basic_re_match_def re_basic_def)

lemma basic_re_match_dotstar: "basic_re_match ''.*'' s = Some True"
  by (cases s) (simp_all add: basic_re_match_def re_basic_def re_unsupported_def)

section \<open>Name filter\<close>

text \<open>
  Claim C3, as amended. With an allow pattern that is not the empty string, the filter
  includes a name exactly when \<open>re.match\<close> finds the pattern at the start of the name, and
  excludes it exactly when it does not. With a deny pattern that is not the empty string
  (and, as every accepted command line guarantees, no allow pattern beside it), it
  includes a name exactly when \<open>re.match\<close> does not find the pattern, and excludes it
  exactly when it does. With no pattern, or an empty one, it includes every name. The
  match is anchored at the start and is not a full match: for a pattern of ordinary
  characters, the allow filter includes exactly the names that begin with it.
\<close>

theorem name_filter_semantics:
  "(whitelist_regex a = Some w \<and> w \<noteq> [] \<longrightarrow>
      (whitelist_blacklist_check lib a name = Inr True) = (re_match lib w name = Some True) \<and>
      (whitelist_blacklist_check lib a name = Inr False) = (re_match lib w name = Some False)) \<and>
   (\<not> truthy_str (whitelist_regex a) \<and> blacklist_regex a = Some b \<and> b \<noteq> [] \<longrightarrow>
      (whitelist_blacklist_check lib a name = Inr True) = (re_match lib b name = Some False) \<and>
      (whitelist_blacklist_check lib a name = Inr False) = (re_match lib b name = Some True)) \<and>
   (snd (parse_args opts) = Inr a' \<and> blacklist_regex a' \<noteq> None \<longrightarrow>
      \<not> truthy_str (whitelist_regex a')) \<and>
   (\<not> truthy_str (whitelist_regex a) \<and> \<not> truthy_str (blacklist_regex a) \<longrightarrow>
      whitelist_blacklist_check lib a name = Inr True) \<and>
   (whitelist_regex a = Some w \<and> w \<noteq> [] \<and> re_plain w \<and>
    re_match lib w name = basic_re_match w name \<longrightarrow>
      (whitelist_blacklist_check lib a name = Inr True) = prefix w name)"
proof -
  have groups: "\<not> truthy_str (whitelist_regex a')"
    if "snd (parse_args opts) = Inr a'" "blacklist_regex a' \<noteq> None"
    using parse_args_groups[OF that(1)] that(2) by auto
  have allow: "(whitelist_blacklist_check lib a name = Inr True) = (re_match lib w name = Some True) \<and>
      (whitelist_blacklist_check lib a name = Inr False) = (re_match lib w name = Some False)"
    if "whitelist_regex a = Some w" "w \<noteq> []"
    using that by (cases "re_match lib w name") (auto simp: whitelist_blacklist_check_def)
  have deny: "(whitelist_blacklist_check lib a name = Inr True) = (re_match lib b name = Some False) \<and>
      (whitelist_blacklist_check lib a name = Inr False) = (re_match lib b name = Some True)"
    if "\<not> truthy_str (whitelist_regex a)" "blacklist_regex a = Some b" "b \<noteq> []"
    using that by (cases "re_match lib b name") (auto simp: whitelist_blacklist_check_def)
  have none: "whitelist_blacklist_check lib a name = Inr True"
    if "\<not> truthy_str (whitelist_regex a)" "\<not> truthy_str (blacklist_regex a)"
    using that by (simp add: whitelist_blacklist_check_def)
  have plain: "(whitelist_blacklist_check lib a name = Inr True) = prefix w name"
    if "whitelist_regex a = Some w" "w \<noteq> []" "re_plain w"
      "re_match lib w name = basic_re_match w name"
    using allow[OF that(1,2)] that(3,4) by (simp add: basic_re_match_plain)
  from groups allow deny none plain show ?thesis by blast
qed

theorem name_filter_semantics_witness:
  "whitelist_blacklist_check basic_lib (default_args\<lparr>whitelist_regex := Some ''rx_''\<rparr>)
      ''rx_packets'' = Inr True \<and>
   whitelist_blacklist_check basic_lib (default_args\<lparr>whitelist_regex := Some ''rx_''\<rparr>)
      ''tx_packets'' = Inr False \<and>
   whitelist_blacklist_check basic_lib (default_args\<lparr>blacklist_regex := Some ''rx_''\<rparr>)
      ''rx_packets'' = Inr False \<and>
   whitelist_blacklist_check basic_lib (default_args\<lparr>blacklist_regex := Some ''rx_''\<rparr>)
      ''tx_packets'' = Inr True \<and>
   whitelist_blacklist_check basic_lib default_args ''tx_packets'' = Inr True \<and>
   snd (parse_args [OptListen ''0.0.0.0:9417'', OptBlacklistRegex ''rx_'']) =
     Inr (default_args\<lparr>listen := Some ''0.0.0.0:9417'', interval := Some 5,
            blacklist_regex := Some ''rx_''\<rparr>) \<and>
   prefix ''rx_'' ''rx_packets'' \<and> ''rx_'' \<noteq> ''rx_packets''"
proof -
  let ?w = "default_args\<lparr>whitelist_regex := Some ''rx_''\<rparr>"
  let ?b = "default_args\<lparr>blacklist_regex := Some ''rx_''\<rparr>"
  let ?opts = "[OptListen ''0.0.0.0:9417'', OptBlacklistRegex ''rx_'']"
  let ?a = "default_args\<lparr>listen := Some ''0.0.0.0:9417'', interval := Some 5,
            blacklist_regex := Some ''rx_''\<rparr>"
  have m: "re_match basic_lib p s = basic_re_match p s" for p s by (simp add: basic_lib_def)
  have p: "re_plain ''rx_''" by (simp add: re_plain_def re_unsupported_def)
  have yes: "basic_re_match ''rx_'' ''rx_packets'' = Some True"
    and no: "basic_re_match ''rx_'' ''tx_packets'' = Some False"
    by (simp_all add: basic_re_match_plain[OF p])
  have cfg: "snd (parse_args ?opts) = Inr ?a"
    by (simp add: parse_args_def argparse_parse_args_def default_args_def)
  note t = name_filter_semantics[where lib = basic_lib and w = "''rx_''" and b = "''rx_''"]
  have 1: "whitelist_blacklist_check basic_lib ?w ''rx_packets'' = Inr True"
    using t[where a = ?w and name = "''rx_packets''"] p m yes by (simp add: default_args_def)
  have 2: "whitelist_blacklist_check basic_lib ?w ''tx_packets'' = Inr False"
    using t[where a = ?w and name = "''tx_packets''"] m no by (simp add: default_args_def)
  have 3: "whitelist_blacklist_check basic_lib ?b ''rx_packets'' = Inr False"
    using t[where a = ?b and name = "''rx_packets''"] m yes by (simp add: default_args_def)
  have 4: "whitelist_blacklist_check basic_lib ?b ''tx_packets'' = Inr True"
    using t[where a = ?b and name = "''tx_packets''"] m no by (simp add: default_args_def)
  have 5: "whitelist_blacklist_check basic_lib default_args ''tx_packets'' = Inr True"
    using t[where a = default_args and name = "''tx_packets''"] by (simp add: default_args_def)
  have 6: "\<not> truthy_str (whitelist_regex ?a)"
    using t[where opts = ?opts and a' = ?a] cfg by simp
  from 1 2 3 4 5 cfg show ?thesis by simp
qed

text \<open>
  The claim as it was stated fails for a deny pattern that is supplied and empty: the
  pattern matches at the start of \<open>rx_packets\<close>, and the name is included all the same.
\<close>

theorem empty_deny_pattern_includes_matching_name:
  "snd (parse_args [OptTextfileName ''/tmp/ethtool.prom'', OptBlacklistRegex '''']) =
     Inr (default_args\<lparr>textfile_name := Some ''/tmp/ethtool.prom'', interval := Some 5,
            blacklist_regex := Some ''''\<rparr>) \<and>
   re_match basic_lib '''' ''rx_packets'' = Some True \<and>
   whitelist_blacklist_check basic_lib
     (default_args\<lparr>textfile_name := Some ''/tmp/ethtool.prom'', interval := Some 5,
            blacklist_regex := Some ''''\<rparr>) ''rx_packets'' = Inr True"
  by (simp add: parse_args_def argparse_parse_args_def default_args_def basic_lib_def
      basic_re_match_empty whitelist_blacklist_check_def)

section \<open>Empty patterns and the interval flag\<close>

text \<open>
  Claim C9. A deny pattern supplied as the empty string switches the filter off: every name
  is included, although the empty pattern matches at the start of every name. The same
  holds for an empty allow pattern.
\<close>

theorem empty_pattern_is_no_filter:
  "(snd (parse_args opts) = Inr a \<and> (blacklist_regex a = Some [] \<or> whitelist_regex a = Some [])
      \<longrightarrow> whitelist_blacklist_check lib a name = Inr True) \<and>
   basic_re_match [] name = Some True"
proof -
  have "whitelist_blacklist_check lib a name = Inr True"
    if ok: "snd (parse_args opts) = Inr a"
      and e: "blacklist_regex a = Some [] \<or> whitelist_regex a = Some []"
  proof -
    from parse_args_groups[OF ok]
    have "whitelist_regex a = None \<or> blacklist_regex a = None" by simp
    with e show ?thesis
      by (auto simp: whitelist_blacklist_check_def)
  qed
  then show ?thesis by (simp add: basic_re_match_empty)
qed

theorem empty_pattern_is_no_filter_witness:
  "snd (parse_args [OptTextfileName ''/tmp/ethtool.prom'', OptBlacklistRegex '''']) =
     Inr (default_args\<lparr>textfile_name := Some ''/tmp/ethtool.prom'', interval := Some 5,
            blacklist_regex := Some ''''\<rparr>) \<and>
   whitelist_blacklist_check basic_lib
     (default_args\<lparr>textfile_name := Some ''/tmp/ethtool.prom'', interval := Some 5,
            blacklist_regex := Some ''''\<rparr>) ''rx_packets'' = Inr True \<and>
   basic_re_match '''' ''rx_packets'' = Some True \<and>
   snd (parse_args [OptTextfileName ''/tmp/ethtool.prom'', OptWhitelistRegex '''']) =
     Inr (default_args\<lparr>textfile_name := Some ''/tmp/ethtool.prom'', interval := Some 5,
            whitelist_regex := Some ''''\<rparr>) \<and>
   whitelist_blacklist_check basic_lib
     (default_args\<lparr>textfile_name := Some ''/tmp/ethtool.prom'', interval := Some 5,
            whitelist_regex := Some ''''\<rparr>) ''rx_packets'' = Inr True"
proof -
  have b: "snd (parse_args [OptTextfileName ''/tmp/ethtool.prom'', OptBlacklistRegex '''']) =
     Inr (default_args\<lparr>textfile_name := Some ''/tmp/ethtool.prom'', interval := Some 5,
            blacklist_regex := Some ''''\<rparr>)"
    and w: "snd (parse_args [OptTextfileName ''/tmp/ethtool.prom'', OptWhitelistRegex '''']) =
     Inr (default_args\<lparr>textfile_name := Some ''/tmp/ethtool.prom'', interval := Some 5,
            whitelist_regex := Some ''''\<rparr>)"
    by (simp_all add: parse_args_def argparse_parse_args_def default_args_def)
  show ?thesis
    using b w
      empty_pattern_is_no_filter[of "[OptTextfileName ''/tmp/ethtool.prom'', OptBlacklistRegex '''']"
        "default_args\<lparr>textfile_name := Some ''/tmp/ethtool.prom'', interval := Some 5,
            blacklist_regex := Some ''''\<rparr>" basic_lib "''rx_packets''"]
      empty_pattern_is_no_filter[of "[OptTextfileName ''/tmp/ethtool.prom'', OptWhitelistRegex '''']"
        "default_args\<lparr>textfile_name := Some ''/tmp/ethtool.prom'', interval := Some 5,
            whitelist_regex := Some ''''\<rparr>" basic_lib "''rx_packets''"]
    by (simp add: default_args_def)
qed

text \<open>
  Claim C6. \<open>--interval\<close> given together with \<open>--listen\<close> is meant to be rejected, and the
  check tests the truth value of the interval: \<open>--listen 0.0.0.0:9417 --interval 0\<close> is
  accepted, with the interval replaced by 5.
\<close>

theorem interval_zero_with_listen_accepted:
  "parse_args [OptListen ''0.0.0.0:9417'', OptInterval 0] =
     ([], Inr (default_args\<lparr>listen := Some ''0.0.0.0:9417'', interval := Some 5\<rparr>))"
  by (simp add: parse_args_def argparse_parse_args_def default_args_def)

lemma interval_with_listen_rejected:
  "n \<noteq> 0 \<Longrightarrow> parse_args [OptListen addr, OptInterval n] = ([ErrInterval], Inl (SystemExit 1))"
  by (simp add: parse_args_def argparse_parse_args_def default_args_def)

lemma take_actions_interval:
  "take_actions xs seen ns = Inr (seen', ns') \<Longrightarrow> AInterval \<notin> action_of ` set xs
    \<Longrightarrow> interval ns' = interval ns"
proof (induction xs arbitrary: seen ns)
  case Nil
  then show ?case by simp
next
  case (Cons x xs)
  from Cons.prems have rest: "take_actions xs (insert (action_of x) seen) (store x ns) = Inr (seen', ns')"
    and x: "action_of x \<noteq> AInterval" and xs: "AInterval \<notin> action_of ` set xs"
    by (auto split: if_splits)
  from x have "interval (store x ns) = interval ns" by (cases x) auto
  with Cons.IH[OF rest xs] show ?case by simp
qed


lemma interval_defaults_to_five:
  assumes "snd (parse_args opts) = Inr a" and "AInterval \<notin> action_of ` set opts"
  shows "interval a = Some 5"
proof -
  from parse_args_argparse[OF assms(1)] obtain ns where ns: "argparse_parse_args opts = Inr ns"
    and a: "a = (if truthy_int (interval ns) then ns else ns\<lparr>interval := Some 5\<rparr>)"
    by blast
  from argparse_take_actions[OF ns] obtain seen
    where "take_actions opts {} default_args = Inr (seen, ns)" by blast
  from take_actions_interval[OF this assms(2)] have "interval ns = None"
    by (simp add: default_args_def)
  with a show ?thesis by simp
qed

section \<open>Exit statuses\<close>

lemma take_actions_error: "take_actions xs seen ns = Inl e \<Longrightarrow> e = SystemExit 2"
  by (induction xs arbitrary: seen ns) (auto split: if_splits)

lemma take_actions_seen:
  "take_actions xs seen ns = Inr (seen', ns') \<Longrightarrow> seen' = seen \<union> action_of ` set xs"
  by (induction xs arbitrary: seen ns) (auto split: if_splits)

lemma argparse_error: "argparse_parse_args opts = Inl e \<Longrightarrow> e = SystemExit 2"
  by (auto simp: argparse_parse_args_def split: sum.splits if_splits dest: take_actions_error)

lemma argparse_rejects_groups:
  assumes "(ATextfileName \<in> action_of ` set opts \<and> AListen \<in> action_of ` set opts) \<or>
           (AWhitelistRegex \<in> action_of ` set opts \<and> ABlacklistRegex \<in> action_of ` set opts) \<or>
           (ATextfileName \<notin> action_of ` set opts \<and> AListen \<notin> action_of ` set opts)"
  shows "argparse_parse_args opts = Inl (SystemExit 2)"
proof (cases "take_actions opts {} default_args")
  case (Inl e)
  then show ?thesis by (simp add: argparse_parse_args_def take_actions_error)
next
  case (Inr r)
  obtain seen ns where r: "r = (seen, ns)" by (cases r)
  have t: "take_actions opts {} default_args = Inr (seen, ns)" using Inr r by simp
  have seen: "seen = action_of ` set opts"
    using take_actions_seen[OF t] by simp
  have "group_inv {} default_args" by (simp add: group_inv_def default_args_def)
  with t have "group_inv seen ns" by (rule take_actions_inv)
  then have x1: "\<not> (ATextfileName \<in> seen \<and> AListen \<in> seen)"
    and x2: "\<not> (AWhitelistRegex \<in> seen \<and> ABlacklistRegex \<in> seen)"
    by (simp_all add: group_inv_def)
  from assms x1 x2 have "ATextfileName \<notin> seen \<and> AListen \<notin> seen"
    unfolding seen by blast
  then show ?thesis unfolding argparse_parse_args_def t by simp
qed

lemma main_parse_error: "snd (parse_args opts) = Inl e \<Longrightarrow> main lib world opts = Some (exit_status e, [])"
  by (simp add: main_def)

lemma main_argparse_error:
  "argparse_parse_args opts = Inl e \<Longrightarrow> main lib world opts = Some (2, [])"
  by (frule argparse_error) (simp add: main_def parse_args_def)

lemma lines_loop_exn: "fst (lines_loop lib a iface ls ks st) = Some e \<Longrightarrow> e = ReError"
proof (induction ls arbitrary: ks st)
  case Nil
  then show ?case by simp
next
  case (Cons l ls)
  then show ?case
    by (auto simp: whitelist_blacklist_check_def split: parsed.splits sum.splits if_splits option.splits)
qed

lemma update_exn: "fst (update_ethtool_stats lib os a iface st) = Some e \<Longrightarrow> exit_status e = 1"
  by (auto simp: update_ethtool_stats_def split: popen_result.splits if_splits option.splits
      dest: lines_loop_exn)

lemma find_loop_exn: "GenRaise e \<in> set (find_loop lib os a d fs) \<Longrightarrow> e = ReError"
  by (induction fs) (auto split: option.splits if_splits)

lemma find_exn: "GenRaise e \<in> set (find_physical_interfaces lib os a) \<Longrightarrow> exit_status e = 1"
  by (auto simp: find_physical_interfaces_def split: option.splits dest: find_loop_exn)

lemma collect_loop_exn:
  "fst (collect_loop lib os a items st) = Some e \<Longrightarrow> \<forall>x. GenRaise x \<in> set items \<longrightarrow> exit_status x = 1
    \<Longrightarrow> exit_status e = 1"
proof (induction items arbitrary: st)
  case Nil
  then show ?case by simp
next
  case (Cons i items)
  show ?case
  proof (cases i)
    case (Yield iface)
    obtain r st' where u: "update_ethtool_stats lib os a iface st = (r, st')"
      by (cases "update_ethtool_stats lib os a iface st")
    show ?thesis
    proof (cases r)
      case None
      with Cons Yield u show ?thesis by simp
    next
      case (Some x)
      with Cons.prems Yield u update_exn[of lib os a iface st x] show ?thesis by simp
    qed
  next
    case (GenRaise x)
    with Cons.prems show ?thesis by simp
  qed
qed

lemma collect_exn: "fst (collect lib os a) = Some e \<Longrightarrow> exit_status e = 1"
  unfolding collect_def by (erule collect_loop_exn) (auto dest: find_exn)

lemma write_exn:
  assumes "fst (write_to_textfile lib os a path) = Some e"
  shows "exit_status e = 1"
proof (cases "collect lib os a")
  case (Pair r st)
  with assms collect_exn[of lib os a e] show ?thesis
    by (auto simp: write_to_textfile_def split: if_splits option.splits)
qed

lemma textfile_loop_raise:
  "write_to_textfile lib (world n) a path = (Some e, evs)
    \<Longrightarrow> textfile_loop lib world a path n tr = Some (exit_status e, tr @ evs)"
  by (subst textfile_loop.simps) simp

lemma textfile_loop_oneshot:
  "write_to_textfile lib (world n) a path = (None, evs) \<Longrightarrow> oneshot a
    \<Longrightarrow> textfile_loop lib world a path n tr = Some (0, tr @ evs)"
  by (subst textfile_loop.simps) simp

lemma textfile_loop_step:
  "write_to_textfile lib (world n) a path = (None, evs) \<Longrightarrow> \<not> oneshot a
    \<Longrightarrow> interval a = Some secs \<Longrightarrow> 0 \<le> secs
    \<Longrightarrow> textfile_loop lib world a path n tr =
        textfile_loop lib world a path (Suc n) (tr @ evs @ [Sleep secs])"
  by (subst textfile_loop.simps) simp

lemma textfile_loop_fails_at:
  assumes "\<not> oneshot a" "interval a = Some secs" "0 \<le> secs"
    and "fst (write_to_textfile lib (world n) a path) = Some e"
  shows "m \<le> n \<Longrightarrow> \<forall>k. m \<le> k \<and> k < n \<longrightarrow> fst (write_to_textfile lib (world k) a path) = None
    \<Longrightarrow> \<exists>tr'. textfile_loop lib world a path m tr = Some (1, tr')"
proof (induction "n - m" arbitrary: m tr)
  case 0
  then have "m = n" by simp
  obtain evs where "write_to_textfile lib (world n) a path = (Some e, evs)"
    using assms(4) by (cases "write_to_textfile lib (world n) a path") auto
  from textfile_loop_raise[of lib world n a path e evs tr, OF this] write_exn[OF assms(4)] \<open>m = n\<close>
  show ?case by simp
next
  case (Suc d)
  then have lt: "m < n" by simp
  with Suc.prems obtain evs where w: "write_to_textfile lib (world m) a path = (None, evs)"
    by (cases "write_to_textfile lib (world m) a path") auto
  have "\<exists>tr'. textfile_loop lib world a path (Suc m) (tr @ evs @ [Sleep secs]) = Some (1, tr')"
    using Suc.hyps(2) lt Suc.prems(2) by (intro Suc.hyps(1)) auto
  with textfile_loop_step[of lib world m a path evs secs tr, OF w assms(1-3)] show ?case by simp
qed

lemma collect_unreadable_root:
  "listdir os ''/sys/class/net'' = None \<Longrightarrow> fst (collect lib os a) = Some OSError"
  by (simp add: collect_def find_physical_interfaces_def)

lemma collect_fatal_popen:
  "find_physical_interfaces lib os a = Yield iface # rest
    \<Longrightarrow> popen os [''/sbin/ethtool'', ''-S'', iface] = PopenFileNotFound \<or>
        popen os [''/sbin/ethtool'', ''-S'', iface] = PopenPermissionError
    \<Longrightarrow> fst (collect lib os a) = Some (SystemExit 1)"
  by (auto simp: collect_def update_ethtool_stats_def)

lemma main_textfile:
  assumes "snd (parse_args opts) = Inr a" "textfile_name a = Some path" "path \<noteq> []"
  shows "main lib world opts = textfile_loop lib world a path 0 []"
proof -
  from parse_args_groups[OF assms(1)] assms(2) have "listen a = None" by auto
  with assms show ?thesis by (simp add: main_def run_textfile_def)
qed

text \<open>
  Claim C5, as amended. A violation of a mutually exclusive group of flags (text file name
  with listen address, whitelist with blacklist, or neither destination) is rejected by
  the argument parser with exit status 2. Oneshot, or an interval that is not zero,
  without a text file name ends the process with status 1. In text file mode, a
  collection cycle that raises (no earlier cycle having raised) ends the process with
  status 1; such are an unreadable device listing and a diagnostic binary that is missing
  or may not be run.
\<close>

theorem exit_statuses:
  "((ATextfileName \<in> action_of ` set opts \<and> AListen \<in> action_of ` set opts) \<or>
    (AWhitelistRegex \<in> action_of ` set opts \<and> ABlacklistRegex \<in> action_of ` set opts) \<or>
    (ATextfileName \<notin> action_of ` set opts \<and> AListen \<notin> action_of ` set opts)
      \<longrightarrow> main lib world opts = Some (2, [])) \<and>
   (argparse_parse_args opts = Inr ns \<and> oneshot ns \<and> \<not> truthy_str (textfile_name ns)
      \<longrightarrow> main lib world opts = Some (1, [])) \<and>
   (argparse_parse_args opts = Inr ns \<and> interval ns = Some secs \<and> secs \<noteq> 0 \<and>
    \<not> truthy_str (textfile_name ns)
      \<longrightarrow> main lib world opts = Some (1, [])) \<and>
   (snd (parse_args opts) = Inr a \<and> textfile_name a = Some path \<and> path \<noteq> [] \<and>
    (n = 0 \<or> \<not> oneshot a \<and> interval a = Some gap \<and> 0 \<le> gap) \<and>
    (\<forall>k<n. fst (write_to_textfile lib (world k) a path) = None) \<and>
    textfile_writable (world n) path \<and> fst (collect lib (world n) a) = Some e
      \<longrightarrow> (\<exists>tr. main lib world opts = Some (1, tr))) \<and>
   (listdir os ''/sys/class/net'' = None \<longrightarrow> fst (collect lib os a) = Some OSError) \<and>
   (find_physical_interfaces lib os a = Yield iface # rest \<and>
    (popen os [''/sbin/ethtool'', ''-S'', iface] = PopenFileNotFound \<or>
     popen os [''/sbin/ethtool'', ''-S'', iface] = PopenPermissionError)
      \<longrightarrow> fst (collect lib os a) = Some (SystemExit 1))"
proof -
  have groups: "main lib world opts = Some (2, [])"
    if "(ATextfileName \<in> action_of ` set opts \<and> AListen \<in> action_of ` set opts) \<or>
        (AWhitelistRegex \<in> action_of ` set opts \<and> ABlacklistRegex \<in> action_of ` set opts) \<or>
        (ATextfileName \<notin> action_of ` set opts \<and> AListen \<notin> action_of ` set opts)"
    using argparse_rejects_groups[OF that] by (rule main_argparse_error)
  have one: "main lib world opts = Some (1, [])"
    if "argparse_parse_args opts = Inr ns" "oneshot ns" "\<not> truthy_str (textfile_name ns)"
    using that by (simp add: main_def parse_args_def)
  have iv: "main lib world opts = Some (1, [])"
    if "argparse_parse_args opts = Inr ns" "interval ns = Some secs" "secs \<noteq> 0"
      "\<not> truthy_str (textfile_name ns)"
    using that by (simp add: main_def parse_args_def)
  have fatal: "\<exists>tr. main lib world opts = Some (1, tr)"
    if ok: "snd (parse_args opts) = Inr a" and p: "textfile_name a = Some path" "path \<noteq> []"
      and n: "n = 0 \<or> \<not> oneshot a \<and> interval a = Some gap \<and> 0 \<le> gap"
      and before: "\<forall>k<n. fst (write_to_textfile lib (world k) a path) = None"
      and w: "textfile_writable (world n) path" and c: "fst (collect lib (world n) a) = Some e"
  proof -
    obtain st where "collect lib (world n) a = (Some e, st)"
      using c by (cases "collect lib (world n) a") auto
    with w have wr: "write_to_textfile lib (world n) a path =
        (Some e, [CreateTempfile path, CollectionCycle])"
      by (simp add: write_to_textfile_def)
    have st1: "exit_status e = 1" using c by (rule collect_exn)
    from parse_args_groups[OF ok] obtain secs where secs: "interval a = Some secs" by auto
    have m: "main lib world opts = textfile_loop lib world a path 0 []"
      by (rule main_textfile[OF ok p])
    show ?thesis
    proof (cases "n = 0")
      case True
      with textfile_loop_raise[of lib world 0 a path e "[CreateTempfile path, CollectionCycle]" "[]"]
        wr st1
      have "textfile_loop lib world a path 0 [] = Some (1, [CreateTempfile path, CollectionCycle])"
        by simp
      with m show ?thesis by simp
    next
      case False
      with n secs have "\<not> oneshot a" "0 \<le> secs" by auto
      from textfile_loop_fails_at[OF this(1) secs this(2), of lib world n path e 0 "[]"] wr before
      have "\<exists>tr. textfile_loop lib world a path 0 [] = Some (1, tr)" by simp
      with m show ?thesis by simp
    qed
  qed
  from groups one iv fatal collect_unreadable_root[of os lib a]
    collect_fatal_popen[of lib os a iface rest]
  show ?thesis by blast
qed


lemma find_nic_os:
  "interface_regex a = ''.*'' \<Longrightarrow> find_physical_interfaces basic_lib (nic_os r) a = [Yield ''eth0'']"
  by (simp add: find_physical_interfaces_def nic_os_def os_path_join_def
      basic_lib_def basic_re_match_def re_basic_def re_unsupported_def)

theorem exit_statuses_witness:
  "main basic_lib (\<lambda>n. quiet_os)
     [OptTextfileName ''/tmp/ethtool.prom'', OptWhitelistRegex ''rx'', OptBlacklistRegex ''tx'']
     = Some (2, []) \<and>
   main basic_lib (\<lambda>n. quiet_os) [OptListen ''0.0.0.0:9417'', OptOneshot] = Some (1, []) \<and>
   main basic_lib (\<lambda>n. quiet_os) [OptListen ''0.0.0.0:9417'', OptInterval 30] = Some (1, []) \<and>
   (\<exists>tr. main basic_lib (\<lambda>n. unreadable_os) [OptTextfileName ''/tmp/ethtool.prom'']
           = Some (1, tr)) \<and>
   fst (collect basic_lib unreadable_os default_args) = Some OSError \<and>
   fst (collect basic_lib (nic_os PopenFileNotFound) default_args) = Some (SystemExit 1) \<and>
   fst (collect basic_lib (nic_os PopenPermissionError) default_args) = Some (SystemExit 1)"
proof -
  let ?f = "[OptTextfileName ''/tmp/ethtool.prom'']"
  let ?a = "default_args\<lparr>textfile_name := Some ''/tmp/ethtool.prom'', interval := Some 5\<rparr>"
  have p1: "argparse_parse_args [OptListen ''0.0.0.0:9417'', OptOneshot]
      = Inr (default_args\<lparr>listen := Some ''0.0.0.0:9417'', oneshot := True\<rparr>)"
    and p2: "argparse_parse_args [OptListen ''0.0.0.0:9417'', OptInterval 30]
      = Inr (default_args\<lparr>listen := Some ''0.0.0.0:9417'', interval := Some 30\<rparr>)"
    and p3: "snd (parse_args ?f) = Inr ?a"
    by (simp_all add: parse_args_def argparse_parse_args_def default_args_def)
  have c: "fst (collect basic_lib unreadable_os ?a) = Some OSError"
    by (simp add: collect_def find_physical_interfaces_def unreadable_os_def quiet_os_def)
  have l: "listdir unreadable_os ''/sys/class/net'' = None"
    and w: "textfile_writable unreadable_os ''/tmp/ethtool.prom''"
    by (simp_all add: unreadable_os_def quiet_os_def)
  have f: "find_physical_interfaces basic_lib (nic_os r) default_args = [Yield ''eth0'']" for r
    by (rule find_nic_os) (simp add: default_args_def)
  have po: "popen (nic_os r) c = r" for r c by (simp add: nic_os_def)
  note t = exit_statuses[where lib = basic_lib]
  have "main basic_lib (\<lambda>n. quiet_os)
     [OptTextfileName ''/tmp/ethtool.prom'', OptWhitelistRegex ''rx'', OptBlacklistRegex ''tx'']
     = Some (2, [])"
    using t[where world = "\<lambda>n. quiet_os" and opts = "[OptTextfileName ''/tmp/ethtool.prom'',
      OptWhitelistRegex ''rx'', OptBlacklistRegex ''tx'']"]
    by simp
  moreover have "main basic_lib (\<lambda>n. quiet_os) [OptListen ''0.0.0.0:9417'', OptOneshot] = Some (1, [])"
    using p1 t[where world = "\<lambda>n. quiet_os" and opts = "[OptListen ''0.0.0.0:9417'', OptOneshot]"
      and ns = "default_args\<lparr>listen := Some ''0.0.0.0:9417'', oneshot := True\<rparr>"]
    by (simp add: default_args_def)
  moreover have "main basic_lib (\<lambda>n. quiet_os) [OptListen ''0.0.0.0:9417'', OptInterval 30] = Some (1, [])"
    using p2 t[where world = "\<lambda>n. quiet_os" and opts = "[OptListen ''0.0.0.0:9417'', OptInterval 30]"
      and ns = "default_args\<lparr>listen := Some ''0.0.0.0:9417'', interval := Some 30\<rparr>"
      and secs = 30]
    by (simp add: default_args_def)
  moreover have "\<exists>tr. main basic_lib (\<lambda>n. unreadable_os) ?f = Some (1, tr)"
    using p3 c w t[where world = "\<lambda>n. unreadable_os" and opts = ?f and a = ?a
      and path = "''/tmp/ethtool.prom''" and n = 0 and e = OSError]
    by (simp add: default_args_def)
  moreover have "fst (collect basic_lib unreadable_os default_args) = Some OSError"
    using l t[where os = unreadable_os and a = default_args] by simp
  moreover have "fst (collect basic_lib (nic_os PopenFileNotFound) default_args) = Some (SystemExit 1)"
    using f po t[where os = "nic_os PopenFileNotFound" and a = default_args and iface = "''eth0''"
      and rest = "[]"] by simp
  moreover have "fst (collect basic_lib (nic_os PopenPermissionError) default_args) = Some (SystemExit 1)"
    using f po t[where os = "nic_os PopenPermissionError" and a = default_args and iface = "''eth0''"
      and rest = "[]"] by simp
  ultimately show ?thesis by blast
qed

theorem exclusive_flags_exit_status_two:
  "main basic_lib (\<lambda>n. quiet_os) [OptTextfileName ''/tmp/ethtool.prom'', OptListen ''0.0.0.0:9417'']
     = Some (2, [])"
  by (simp add: main_def parse_args_def argparse_parse_args_def default_args_def)

section \<open>Failures of the counter fetcher\<close>

lemma main_first_cycle_raises:
  assumes "snd (parse_args opts) = Inr a" "textfile_name a = Some path" "path \<noteq> []"
    and "textfile_writable (world 0) path" "fst (collect lib (world 0) a) = Some e"
  shows "main lib world opts = Some (1, [CreateTempfile path, CollectionCycle])"
proof -
  obtain st where "collect lib (world 0) a = (Some e, st)"
    using assms(5) by (cases "collect lib (world 0) a") auto
  with assms(4) have "write_to_textfile lib (world 0) a path =
      (Some e, [CreateTempfile path, CollectionCycle])"
    by (simp add: write_to_textfile_def)
  from textfile_loop_raise[of lib world 0 a path e "[CreateTempfile path, CollectionCycle]" "[]",
      OF this]
    collect_exn[OF assms(5)] main_textfile[OF assms(1-3), of lib world]
  show ?thesis by simp
qed

text \<open>
  The three tiers as the fetcher implements them. When the diagnostic binary is missing,
  and when running it raises a permission error, \<open>update_ethtool_stats\<close> calls
  \<open>sys.exit(1)\<close>; the exit leaves the collection and, in text file mode, ends the process
  with status 1. When the command runs and returns a status that is not zero, the call
  returns normally with no sample added, and the collection goes on with the remaining
  interfaces.
\<close>

lemma fetcher_failure_tiers:
  "(popen os [''/sbin/ethtool'', ''-S'', iface] = PopenFileNotFound \<longrightarrow>
      update_ethtool_stats lib os a iface st =
        (Some (SystemExit 1), st\<lparr>logs := logs st @ [CritNotFound]\<rparr>) \<and>
      fst (collect_loop lib os a (Yield iface # rest) st) = Some (SystemExit 1)) \<and>
   (popen os [''/sbin/ethtool'', ''-S'', iface] = PopenPermissionError \<longrightarrow>
      update_ethtool_stats lib os a iface st =
        (Some (SystemExit 1), st\<lparr>logs := logs st @ [CritPermission]\<rparr>) \<and>
      fst (collect_loop lib os a (Yield iface # rest) st) = Some (SystemExit 1)) \<and>
   (popen os [''/sbin/ethtool'', ''-S'', iface] = Exited returncode out \<and> returncode \<noteq> 0 \<longrightarrow>
      update_ethtool_stats lib os a iface st =
        (None, st\<lparr>logs := logs st @ [CritNonZero iface]\<rparr>) \<and>
      collect_loop lib os a (Yield iface # rest) st =
        collect_loop lib os a rest (st\<lparr>logs := logs st @ [CritNonZero iface]\<rparr>)) \<and>
   (snd (parse_args opts) = Inr a \<and> textfile_name a = Some path \<and> path \<noteq> [] \<and>
    textfile_writable (world 0) path \<and>
    fst (collect lib (world 0) a) = Some (SystemExit 1) \<longrightarrow>
      main lib world opts = Some (1, [CreateTempfile path, CollectionCycle]))"
  using main_first_cycle_raises[of opts a path world lib "SystemExit 1"]
  by (simp add: update_ethtool_stats_def)

lemma fetcher_failure_tiers_example:
  "collect basic_lib (nic_os PopenFileNotFound) default_args =
     (Some (SystemExit 1), \<lparr>samples = [], logs = [CritNotFound]\<rparr>) \<and>
   collect basic_lib (nic_os PopenPermissionError) default_args =
     (Some (SystemExit 1), \<lparr>samples = [], logs = [CritPermission]\<rparr>) \<and>
   collect basic_lib (nic_os (Exited 1 (Some ''''))) default_args =
     (None, \<lparr>samples = [], logs = [CritNonZero ''eth0'']\<rparr>) \<and>
   main basic_lib (\<lambda>n. nic_os PopenFileNotFound) [OptTextfileName ''/tmp/ethtool.prom'']
     = Some (1, [CreateTempfile ''/tmp/ethtool.prom'', CollectionCycle])"
proof -
  let ?a = "default_args\<lparr>textfile_name := Some ''/tmp/ethtool.prom'', interval := Some 5\<rparr>"
  let ?st = "\<lparr>samples = [], logs = []\<rparr> :: real cstate"
  have f: "find_physical_interfaces basic_lib (nic_os r) default_args = [Yield ''eth0'']"
    and f': "find_physical_interfaces basic_lib (nic_os r) ?a = [Yield ''eth0'']" for r
    by (rule find_nic_os, simp add: default_args_def)+
  have po: "popen (nic_os r) c = r" for r c by (simp add: nic_os_def)
  have w: "textfile_writable (nic_os r) p" for r p by (simp add: nic_os_def)
  have p: "snd (parse_args [OptTextfileName ''/tmp/ethtool.prom'']) = Inr ?a"
    by (simp add: parse_args_def argparse_parse_args_def default_args_def)
  note t = fetcher_failure_tiers[where lib = basic_lib and iface = "''eth0''" and rest = "[]"
      and st = ?st]
  have 1: "collect basic_lib (nic_os PopenFileNotFound) default_args =
     (Some (SystemExit 1), \<lparr>samples = [], logs = [CritNotFound]\<rparr>)"
    using t[where os = "nic_os PopenFileNotFound" and a = default_args] f po
    by (simp add: collect_def)
  have 2: "collect basic_lib (nic_os PopenPermissionError) default_args =
     (Some (SystemExit 1), \<lparr>samples = [], logs = [CritPermission]\<rparr>)"
    using t[where os = "nic_os PopenPermissionError" and a = default_args] f po
    by (simp add: collect_def)
  have 3: "collect basic_lib (nic_os (Exited 1 (Some ''''))) default_args =
     (None, \<lparr>samples = [], logs = [CritNonZero ''eth0'']\<rparr>)"
    using t[where os = "nic_os (Exited 1 (Some ''''))" and a = default_args and returncode = 1
        and out = "Some ''''"] f po
    by (simp add: collect_def)
  have "fst (collect basic_lib (nic_os PopenFileNotFound) ?a) = Some (SystemExit 1)"
    using t[where os = "nic_os PopenFileNotFound" and a = ?a] f' po
    by (simp add: collect_def)
  then have 4: "main basic_lib (\<lambda>n. nic_os PopenFileNotFound) [OptTextfileName ''/tmp/ethtool.prom'']
     = Some (1, [CreateTempfile ''/tmp/ethtool.prom'', CollectionCycle])"
    using t[where os = "nic_os PopenFileNotFound" and a = ?a and world = "\<lambda>n. nic_os PopenFileNotFound"
        and opts = "[OptTextfileName ''/tmp/ethtool.prom'']" and path = "''/tmp/ethtool.prom''"] p w
    by (simp add: default_args_def)
  from 1 2 3 4 show ?thesis by blast
qed

text \<open>
  Claim C4. The fetcher means to end the whole process when the binary is missing or may
  not be run: it logs that it gives up and calls \<open>sys.exit(1)\<close>. In serve mode this does
  not happen. The collection runs inside the HTTP library on each scrape, the exit it
  raises ends that request only, and the main thread keeps sleeping: on a machine without
  the binary the collection raises the exit, and the process started with \<open>--listen\<close>
  never terminates.
\<close>

theorem serve_mode_outlives_missing_binary:
  "snd (parse_args [OptListen ''0.0.0.0:9417'']) =
     Inr (default_args\<lparr>listen := Some ''0.0.0.0:9417'', interval := Some 5\<rparr>) \<and>
   collect basic_lib (nic_os PopenFileNotFound)
     (default_args\<lparr>listen := Some ''0.0.0.0:9417'', interval := Some 5\<rparr>) =
     (Some (SystemExit 1), \<lparr>samples = [], logs = [CritNotFound]\<rparr>) \<and>
   main basic_lib (\<lambda>n. nic_os PopenFileNotFound) [OptListen ''0.0.0.0:9417''] = None"
proof -
  let ?a = "default_args\<lparr>listen := Some ''0.0.0.0:9417'', interval := Some 5\<rparr>"
  have p: "snd (parse_args [OptListen ''0.0.0.0:9417'']) = Inr ?a"
    by (simp add: parse_args_def argparse_parse_args_def default_args_def)
  have f: "find_physical_interfaces basic_lib (nic_os PopenFileNotFound) ?a = [Yield ''eth0'']"
    by (rule find_nic_os) (simp add: default_args_def)
  have c: "collect basic_lib (nic_os PopenFileNotFound) ?a =
     (Some (SystemExit 1), \<lparr>samples = [], logs = [CritNotFound]\<rparr>)"
    unfolding collect_def f by (simp add: update_ethtool_stats_def nic_os_def)
  have sp: "py_split ''0.0.0.0:9417'' '':'' = [''0.0.0.0'', ''9417'']"
    by (simp add: py_split_def)
  have port: "py_int basic_lib ''9417'' = Some 9417"
    by (simp add: basic_lib_def decimal_int_def int_char_def is_digit_def decimal_def)
  have "serve basic_lib (nic_os PopenFileNotFound) ''0.0.0.0:9417'' = None"
    unfolding serve_def sp by (simp add: port nic_os_def)
  with p have m: "main basic_lib (\<lambda>n. nic_os PopenFileNotFound) [OptListen ''0.0.0.0:9417''] = None"
    by (simp add: main_def default_args_def)
  from p c m show ?thesis by blast
qed

section \<open>Interface enumeration\<close>

lemma py_in_sublist: "py_in sub s = sublist sub s"
  by (induction s) (simp_all add: sublist_Cons_right)

lemma find_loop_yield_only_if:
  "Yield entry \<in> set (find_loop lib os a d fs) \<Longrightarrow>
     entry \<in> set fs \<and>
     (\<exists>target. readlink os (os_path_join d entry) = Some target \<and> \<not> sublist ''virtual'' target) \<and>
     re_match lib (interface_regex a) entry = Some True"
  by (induction fs) (auto simp: py_in_sublist split: option.splits if_splits)

lemma find_loop_yield_if:
  "\<forall>f \<in> set fs. re_match lib (interface_regex a) f \<noteq> None \<Longrightarrow> entry \<in> set fs \<Longrightarrow>
   readlink os (os_path_join d entry) = Some target \<Longrightarrow> \<not> sublist ''virtual'' target \<Longrightarrow>
   re_match lib (interface_regex a) entry = Some True \<Longrightarrow>
   Yield entry \<in> set (find_loop lib os a d fs)"
  by (induction fs) (auto simp: py_in_sublist split: option.splits if_splits)

lemma find_yield_iff:
  assumes "listdir os ''/sys/class/net'' = Some files"
    and "\<forall>f \<in> set files. re_match lib (interface_regex a) f \<noteq> None"
  shows "(Yield entry \<in> set (find_physical_interfaces lib os a)) =
     (entry \<in> set files \<and>
      (\<exists>target. readlink os (os_path_join ''/sys/class/net'' entry) = Some target \<and>
                \<not> sublist ''virtual'' target) \<and>
      re_match lib (interface_regex a) entry = Some True)"
  using assms find_loop_yield_only_if[of entry lib os a "''/sys/class/net''" files]
    find_loop_yield_if[of files lib a entry os "''/sys/class/net''"]
  by (auto simp: find_physical_interfaces_def)

lemma find_yield_listed:
  "Yield entry \<in> set (find_physical_interfaces lib os a) \<Longrightarrow>
     (\<exists>target. readlink os (os_path_join ''/sys/class/net'' entry) = Some target \<and>
               \<not> sublist ''virtual'' target)"
  by (auto simp: find_physical_interfaces_def split: option.splits dest: find_loop_yield_only_if)

lemma take_actions_interface_regex:
  "take_actions xs seen ns = Inr (seen', ns') \<Longrightarrow> AInterfaceRegex \<notin> action_of ` set xs
    \<Longrightarrow> interface_regex ns' = interface_regex ns"
proof (induction xs arbitrary: seen ns)
  case Nil
  then show ?case by simp
next
  case (Cons x xs)
  from Cons.prems have rest: "take_actions xs (insert (action_of x) seen) (store x ns) = Inr (seen', ns')"
    and x: "action_of x \<noteq> AInterfaceRegex" and xs: "AInterfaceRegex \<notin> action_of ` set xs"
    by (auto split: if_splits)
  from x have "interface_regex (store x ns) = interface_regex ns" by (cases x) auto
  with Cons.IH[OF rest xs] show ?case by simp
qed

lemma default_interface_regex:
  assumes "snd (parse_args opts) = Inr a" and "AInterfaceRegex \<notin> action_of ` set opts"
  shows "interface_regex a = ''.*''"
proof -
  from parse_args_argparse[OF assms(1)] obtain ns where ns: "argparse_parse_args opts = Inr ns"
    and a: "a = (if truthy_int (interval ns) then ns else ns\<lparr>interval := Some 5\<rparr>)"
    by blast
  from a have a': "interface_regex a = interface_regex ns" by simp
  from argparse_take_actions[OF ns] obtain seen
    where "take_actions opts {} default_args = Inr (seen, ns)" by blast
  from take_actions_interface_regex[OF this assms(2)] a' show ?thesis
    by (simp add: default_args_def)
qed

lemma split_from_fields_sublist:
  "x \<in> set (split_from sep acc s) \<Longrightarrow> sublist x (acc @ s)"
proof (induction sep acc s rule: split_from.induct)
  case (1 sep acc)
  then show ?case by simp
next
  case (2 sep acc c cs)
  show ?case
  proof (cases "sep \<noteq> [] \<and> prefix sep (c # cs)")
    case True
    with "2.prems" consider "x = acc" | "x \<in> set (split_from sep [] (drop (length sep) (c # cs)))"
      by auto
    then show ?thesis
    proof cases
      case 1
      then show ?thesis by simp
    next
      case 2
      with "2.IH"(1)[OF True] have "sublist x (drop (length sep) (c # cs))" by simp
      then obtain ps ss where d: "drop (length sep) (c # cs) = ps @ x @ ss"
        unfolding sublist_def by blast
      have "acc @ c # cs = (acc @ take (length sep) (c # cs)) @ drop (length sep) (c # cs)"
        by simp
      then have "acc @ c # cs = (acc @ take (length sep) (c # cs) @ ps) @ x @ ss"
        unfolding d by simp
      then show ?thesis unfolding sublist_def by blast
    qed
  next
    case False
    with "2.prems" have "x \<in> set (split_from sep (acc @ [c]) cs)" by auto
    with "2.IH"(2)[OF False] show ?thesis by simp
  qed
qed

lemma contains_segment_sublist: "contains_segment marker path \<Longrightarrow> sublist marker path"
  using split_from_fields_sublist[of marker "''/''" "[]" path]
  by (simp add: contains_segment_def py_split_def)

text \<open>
  Claim C7, as amended. With a readable device listing and an interface pattern that
  compiles, a directory entry is yielded exactly when it is a symbolic link whose target
  does not contain the string \<open>virtual\<close> anywhere and \<open>re.match\<close> finds the interface pattern
  at the start of its name. The test on the target is a substring test, not a test on
  path segments. Whatever the pattern, a link whose target contains \<open>virtual\<close>, as a segment
  or otherwise, is never yielded. When no \<open>--interface-regex\<close> is given the pattern is \<open>.*\<close>,
  which restricts nothing: exactly the links whose target does not contain \<open>virtual\<close> are
  yielded.
\<close>

theorem enumerator_yields_physical_links:
  "(listdir os ''/sys/class/net'' = Some files \<and>
    (\<forall>f \<in> set files. re_match lib (interface_regex a) f \<noteq> None) \<longrightarrow>
      (Yield entry \<in> set (find_physical_interfaces lib os a)) =
        (entry \<in> set files \<and>
         (\<exists>target. readlink os (os_path_join ''/sys/class/net'' entry) = Some target \<and>
                   \<not> sublist ''virtual'' target) \<and>
         re_match lib (interface_regex a) entry = Some True)) \<and>
   (readlink os (os_path_join ''/sys/class/net'' entry) = Some target \<and>
    (sublist ''virtual'' target \<or> contains_segment ''virtual'' target) \<longrightarrow>
      Yield entry \<notin> set (find_physical_interfaces lib os a)) \<and>
   (snd (parse_args opts) = Inr a \<and> AInterfaceRegex \<notin> action_of ` set opts \<and>
    (\<forall>f \<in> set files. re_match lib ''.*'' f = Some True) \<and>
    listdir os ''/sys/class/net'' = Some files \<longrightarrow>
      interface_regex a = ''.*'' \<and>
      (Yield entry \<in> set (find_physical_interfaces lib os a)) =
        (entry \<in> set files \<and>
         (\<exists>target. readlink os (os_path_join ''/sys/class/net'' entry) = Some target \<and>
                   \<not> sublist ''virtual'' target)))"
proof -
  have 1: "(Yield entry \<in> set (find_physical_interfaces lib os a)) =
        (entry \<in> set files \<and>
         (\<exists>target. readlink os (os_path_join ''/sys/class/net'' entry) = Some target \<and>
                   \<not> sublist ''virtual'' target) \<and>
         re_match lib (interface_regex a) entry = Some True)"
    if "listdir os ''/sys/class/net'' = Some files"
      "\<forall>f \<in> set files. re_match lib (interface_regex a) f \<noteq> None"
    using that by (rule find_yield_iff)
  have 2: "Yield entry \<notin> set (find_physical_interfaces lib os a)"
    if r: "readlink os (os_path_join ''/sys/class/net'' entry) = Some target"
      and v: "sublist ''virtual'' target \<or> contains_segment ''virtual'' target"
  proof -
    from v contains_segment_sublist have "sublist ''virtual'' target" by blast
    with r find_yield_listed[of entry lib os a] show ?thesis by auto
  qed
  have 3: "interface_regex a = ''.*'' \<and>
      (Yield entry \<in> set (find_physical_interfaces lib os a)) =
        (entry \<in> set files \<and>
         (\<exists>target. readlink os (os_path_join ''/sys/class/net'' entry) = Some target \<and>
                   \<not> sublist ''virtual'' target))"
    if ok: "snd (parse_args opts) = Inr a" "AInterfaceRegex \<notin> action_of ` set opts"
      and m: "\<forall>f \<in> set files. re_match lib ''.*'' f = Some True"
      and l: "listdir os ''/sys/class/net'' = Some files"
  proof -
    have r: "interface_regex a = ''.*''" using ok by (rule default_interface_regex)
    with m have all: "\<forall>f \<in> set files. re_match lib (interface_regex a) f = Some True" by simp
    then have "\<forall>f \<in> set files. re_match lib (interface_regex a) f \<noteq> None" by simp
    from find_yield_iff[OF l this, of entry] all r show ?thesis by auto
  qed
  from 1 2 3 show ?thesis by blast
qed

theorem enumerator_yields_physical_links_witness:
  "find_physical_interfaces basic_lib (nic_os PopenFileNotFound) default_args = [Yield ''eth0''] \<and>
   listdir (nic_os PopenFileNotFound) ''/sys/class/net'' = Some [''lo'', ''eth0''] \<and>
   readlink (nic_os PopenFileNotFound) (os_path_join ''/sys/class/net'' ''lo'') =
     Some ''../../devices/virtual/net/lo'' \<and>
   contains_segment ''virtual'' ''../../devices/virtual/net/lo'' \<and>
   re_match basic_lib ''.*'' ''lo'' = Some True \<and>
   Yield ''lo'' \<notin> set (find_physical_interfaces basic_lib (nic_os PopenFileNotFound) default_args) \<and>
   Yield ''eth0'' \<in> set (find_physical_interfaces basic_lib (nic_os PopenFileNotFound) default_args) \<and>
   Yield ''eth0'' \<in> set (find_physical_interfaces basic_lib (nic_os PopenFileNotFound)
      (default_args\<lparr>listen := Some ''0.0.0.0:9417'', interval := Some 5\<rparr>))"
proof -
  let ?os = "nic_os PopenFileNotFound"
  let ?a = "default_args\<lparr>listen := Some ''0.0.0.0:9417'', interval := Some 5\<rparr>"
  have f: "find_physical_interfaces basic_lib ?os default_args = [Yield ''eth0'']"
    by (rule find_nic_os) (simp add: default_args_def)
  have l: "listdir ?os ''/sys/class/net'' = Some [''lo'', ''eth0'']"
    and rl: "readlink ?os (os_path_join ''/sys/class/net'' ''lo'') = Some ''../../devices/virtual/net/lo''"
    and re: "readlink ?os (os_path_join ''/sys/class/net'' ''eth0'') =
      Some ''../../devices/pci0000:00/0000:00:03.0/net/eth0''"
    by (simp_all add: nic_os_def os_path_join_def)
  have v: "contains_segment ''virtual'' ''../../devices/virtual/net/lo''"
    by (simp add: contains_segment_def py_split_def)
  have nv: "\<not> sublist ''virtual'' ''../../devices/pci0000:00/0000:00:03.0/net/eth0''"
    unfolding py_in_sublist[symmetric] by simp
  have d: "re_match basic_lib ''.*'' s = Some True" for s
    by (simp add: basic_lib_def basic_re_match_dotstar)
  have p: "snd (parse_args [OptListen ''0.0.0.0:9417'']) = Inr ?a"
    by (simp add: parse_args_def argparse_parse_args_def default_args_def)
  note t = enumerator_yields_physical_links[where lib = basic_lib and os = ?os
      and files = "[''lo'', ''eth0'']"]
  have 1: "Yield ''lo'' \<notin> set (find_physical_interfaces basic_lib ?os default_args)"
    using t[where a = default_args and entry = "''lo''" and target = "''../../devices/virtual/net/lo''"]
      rl v by simp
  have 2: "Yield ''eth0'' \<in> set (find_physical_interfaces basic_lib ?os default_args)"
    using t[where a = default_args and entry = "''eth0''"] l re nv d
    by (simp add: default_args_def)
  have 3: "Yield ''eth0'' \<in> set (find_physical_interfaces basic_lib ?os ?a)"
    using t[where a = ?a and entry = "''eth0''" and opts = "[OptListen ''0.0.0.0:9417'']"] l re nv d p
    by simp
  from f l rl v d 1 2 3 show ?thesis by blast
qed

text \<open>
  The claim as it was stated, with the marker as a path segment, fails: the target of
  \<open>virtual0\<close> has no segment \<open>virtual\<close>, its name matches the default pattern, and it is not
  yielded.
\<close>

theorem physical_link_named_virtual0_not_yielded:
  "listdir virtual0_os ''/sys/class/net'' = Some [''virtual0''] \<and>
   readlink virtual0_os (os_path_join ''/sys/class/net'' ''virtual0'') =
     Some ''../../devices/pci0000:00/0000:00:03.0/net/virtual0'' \<and>
   \<not> contains_segment ''virtual'' ''../../devices/pci0000:00/0000:00:03.0/net/virtual0'' \<and>
   re_match basic_lib (interface_regex default_args) ''virtual0'' = Some True \<and>
   find_physical_interfaces basic_lib virtual0_os default_args = []"
proof -
  have 1: "listdir virtual0_os ''/sys/class/net'' = Some [''virtual0'']"
    and 2: "readlink virtual0_os (os_path_join ''/sys/class/net'' ''virtual0'') =
     Some ''../../devices/pci0000:00/0000:00:03.0/net/virtual0''"
    by (simp_all add: virtual0_os_def os_path_join_def)
  have 3: "\<not> contains_segment ''virtual'' ''../../devices/pci0000:00/0000:00:03.0/net/virtual0''"
    by (simp add: contains_segment_def py_split_def)
  have 4: "re_match basic_lib (interface_regex default_args) ''virtual0'' = Some True"
    by (simp add: default_args_def basic_lib_def basic_re_match_dotstar)
  have 5: "find_physical_interfaces basic_lib virtual0_os default_args = []"
    by (simp add: find_physical_interfaces_def virtual0_os_def os_path_join_def)
  from 1 2 3 4 5 show ?thesis by blast
qed

section \<open>The interface pattern\<close>







section \<open>One-shot text file mode\<close>

lemma parse_args_oneshot:
  assumes "snd (parse_args opts) = Inr a" and "oneshot a"
  shows "truthy_str (textfile_name a)"
proof -
  from parse_args_argparse[OF assms(1)] obtain ns where ns: "argparse_parse_args opts = Inr ns"
    and a: "a = (if truthy_int (interval ns) then ns else ns\<lparr>interval := Some 5\<rparr>)"
    by blast
  from a assms(2) have o: "oneshot ns" and t: "textfile_name a = textfile_name ns"
    by (simp_all split: if_splits)
  show ?thesis
  proof (rule ccontr)
    assume "\<not> truthy_str (textfile_name a)"
    with t o ns have "snd (parse_args opts) = Inl (SystemExit 1)"
      by (simp add: parse_args_def)
    with assms(1) show False by simp
  qed
qed

lemma example_lines:
  "lines_loop basic_lib default_args ''eth0'' (py_split example_output [CHR 0x0A]) {}
      \<lparr>samples = [], logs = []\<rparr> =
   (None, \<lparr>samples = [([''eth0'', ''rx_packets''], 100), ([''eth0'', ''rx_errors''], 0)],
           logs = [WarnAlreadySeen ''rx_packets'' ''eth0'']\<rparr>)"
  by (simp add: example_output_def py_split_def parse_line_def py_strip_def isspace_def
      basic_lib_def decimal_float_def float_char_def is_digit_def decimal_def whitelist_blacklist_check_def
      default_args_def)

lemma lines_loop_args_cong:
  "whitelist_regex a = whitelist_regex b \<Longrightarrow> blacklist_regex a = blacklist_regex b \<Longrightarrow>
   lines_loop lib a iface ls ks st = lines_loop lib b iface ls ks st"
proof (induction ls arbitrary: ks st)
  case Nil
  then show ?case by simp
next
  case (Cons l ls)
  have w: "whitelist_blacklist_check lib a k = whitelist_blacklist_check lib b k" for k
    using Cons.prems by (simp add: whitelist_blacklist_check_def)
  show ?case
    by (simp add: w Cons.IH[OF Cons.prems] split: parsed.splits sum.splits)
qed

lemma example_collect:
  assumes "interface_regex a = ''.*''" "whitelist_regex a = None" "blacklist_regex a = None"
  shows "collect basic_lib (nic_os (Exited 0 (Some example_output))) a =
   (None, \<lparr>samples = [([''eth0'', ''rx_packets''], 100), ([''eth0'', ''rx_errors''], 0)],
           logs = [WarnAlreadySeen ''rx_packets'' ''eth0'']\<rparr>)"
proof -
  have l: "lines_loop basic_lib a ''eth0'' ls ks st = lines_loop basic_lib default_args ''eth0'' ls ks st"
    for ls ks and st :: "real cstate"
    by (rule lines_loop_args_cong) (simp_all add: assms default_args_def)
  show ?thesis
    unfolding collect_def find_nic_os[OF assms(1)]
    by (simp add: update_ethtool_stats_def nic_os_def l example_lines)
qed

text \<open>
  Claim C8. A command line accepted with \<open>--oneshot\<close> is in text file mode. When the text
  file can be written and the collection cycle completes, the process has run exactly one
  cycle, written exactly one snapshot to the configured file, and exits with status 0
  without sleeping or looping. When the cycle does not complete, the process does not
  sleep or loop either: it ends with status 1 after that one cycle, or before it when the
  temporary file cannot be opened.
\<close>

theorem oneshot_single_cycle:
  "(snd (parse_args opts) = Inr a \<and> oneshot a \<longrightarrow>
      (\<exists>p. textfile_name a = Some p \<and> p \<noteq> [])) \<and>
   (snd (parse_args opts) = Inr a \<and> oneshot a \<and> textfile_name a = Some path \<and>
    textfile_writable (world 0) path \<and> collect lib (world 0) a = (None, st) \<longrightarrow>
      main lib world opts =
        Some (0, [CreateTempfile path, CollectionCycle, WriteTextfile path (samples st)])) \<and>
   (snd (parse_args opts) = Inr a \<and> oneshot a \<and> textfile_name a = Some path \<and>
    textfile_writable (world 0) path \<and> fst (collect lib (world 0) a) = Some e \<longrightarrow>
      main lib world opts = Some (1, [CreateTempfile path, CollectionCycle])) \<and>
   (snd (parse_args opts) = Inr a \<and> oneshot a \<and> textfile_name a = Some path \<and>
    \<not> textfile_writable (world 0) path \<longrightarrow>
      main lib world opts = Some (1, []))"
proof -
  have mode: "\<exists>p. textfile_name a = Some p \<and> p \<noteq> []"
    if "snd (parse_args opts) = Inr a" "oneshot a"
    using parse_args_oneshot[OF that] by (cases "textfile_name a") auto
  have ne: "path \<noteq> []" if "snd (parse_args opts) = Inr a" "oneshot a" "textfile_name a = Some path"
    using mode[OF that(1,2)] that(3) by auto
  have good: "main lib world opts =
      Some (0, [CreateTempfile path, CollectionCycle, WriteTextfile path (samples st)])"
    if ok: "snd (parse_args opts) = Inr a" and o: "oneshot a" and p: "textfile_name a = Some path"
      and w: "textfile_writable (world 0) path" and c: "collect lib (world 0) a = (None, st)"
  proof -
    from w c have "write_to_textfile lib (world 0) a path =
        (None, [CreateTempfile path, CollectionCycle, WriteTextfile path (samples st)])"
      by (simp add: write_to_textfile_def)
    from textfile_loop_oneshot[of lib world 0 a path _ "[]", OF this o]
      main_textfile[OF ok p ne[OF ok o p], of lib world]
    show ?thesis by simp
  qed
  have bad: "main lib world opts = Some (1, [CreateTempfile path, CollectionCycle])"
    if ok: "snd (parse_args opts) = Inr a" and o: "oneshot a" and p: "textfile_name a = Some path"
      and w: "textfile_writable (world 0) path" and c: "fst (collect lib (world 0) a) = Some e"
    using main_first_cycle_raises[where world = world, OF ok p ne[OF ok o p] w c] .
  have closed: "main lib world opts = Some (1, [])"
    if ok: "snd (parse_args opts) = Inr a" and o: "oneshot a" and p: "textfile_name a = Some path"
      and w: "\<not> textfile_writable (world 0) path"
  proof -
    from w have "write_to_textfile lib (world 0) a path = (Some OSError, [])"
      by (simp add: write_to_textfile_def)
    from textfile_loop_raise[of lib world 0 a path OSError "[]" "[]", OF this]
      main_textfile[OF ok p ne[OF ok o p], of lib world]
    show ?thesis by simp
  qed
  from mode good bad closed show ?thesis by blast
qed

theorem oneshot_single_cycle_witness:
  "main basic_lib (\<lambda>n. nic_os (Exited 0 (Some example_output)))
      [OptTextfileName ''/tmp/ethtool.prom'', OptOneshot] =
     Some (0, [CreateTempfile ''/tmp/ethtool.prom'', CollectionCycle,
               WriteTextfile ''/tmp/ethtool.prom''
                 [([''eth0'', ''rx_packets''], 100), ([''eth0'', ''rx_errors''], 0)]]) \<and>
   main basic_lib (\<lambda>n. nic_os PopenPermissionError)
      [OptTextfileName ''/tmp/ethtool.prom'', OptOneshot] =
     Some (1, [CreateTempfile ''/tmp/ethtool.prom'', CollectionCycle]) \<and>
   main basic_lib (\<lambda>n. (nic_os PopenPermissionError)\<lparr>textfile_writable := (\<lambda>p. False)\<rparr>)
      [OptTextfileName ''/tmp/ethtool.prom'', OptOneshot] = Some (1, []) \<and>
   snd (parse_args [OptTextfileName ''/tmp/ethtool.prom'', OptOneshot]) =
     Inr (default_args\<lparr>textfile_name := Some ''/tmp/ethtool.prom'', interval := Some 5,
            oneshot := True\<rparr>)"
proof -
  let ?opts = "[OptTextfileName ''/tmp/ethtool.prom'', OptOneshot]"
  let ?a = "default_args\<lparr>textfile_name := Some ''/tmp/ethtool.prom'', interval := Some 5,
            oneshot := True\<rparr>"
  let ?st = "\<lparr>samples = [([''eth0'', ''rx_packets''], 100::real), ([''eth0'', ''rx_errors''], 0)],
           logs = [WarnAlreadySeen ''rx_packets'' ''eth0'']\<rparr>"
  have p: "snd (parse_args ?opts) = Inr ?a"
    by (simp add: parse_args_def argparse_parse_args_def default_args_def)
  have o: "oneshot ?a" and t: "textfile_name ?a = Some ''/tmp/ethtool.prom''" by simp_all
  have w: "textfile_writable (nic_os r) q" for r q by (simp add: nic_os_def)
  have c1: "collect basic_lib (nic_os (Exited 0 (Some example_output))) ?a = (None, ?st)"
    by (rule example_collect) (simp_all add: default_args_def)
  have f: "find_physical_interfaces basic_lib (nic_os r) ?a = [Yield ''eth0'']" for r
    by (rule find_nic_os) (simp add: default_args_def)
  have c2: "fst (collect basic_lib (nic_os PopenPermissionError) ?a) = Some (SystemExit 1)"
    by (rule collect_fatal_popen[OF f]) (simp add: nic_os_def)
  note th = oneshot_single_cycle[where lib = basic_lib and opts = ?opts and a = ?a
      and path = "''/tmp/ethtool.prom''"]
  have 1: "main basic_lib (\<lambda>n. nic_os (Exited 0 (Some example_output))) ?opts =
     Some (0, [CreateTempfile ''/tmp/ethtool.prom'', CollectionCycle,
               WriteTextfile ''/tmp/ethtool.prom''
                 [([''eth0'', ''rx_packets''], 100), ([''eth0'', ''rx_errors''], 0)]])"
    using th[where world = "\<lambda>n. nic_os (Exited 0 (Some example_output))" and st = ?st] p o t w c1
    by simp
  have 2: "main basic_lib (\<lambda>n. nic_os PopenPermissionError) ?opts =
     Some (1, [CreateTempfile ''/tmp/ethtool.prom'', CollectionCycle])"
    using th[where world = "\<lambda>n. nic_os PopenPermissionError" and e = "SystemExit 1"] p o t w c2
    by simp
  have 3: "main basic_lib (\<lambda>n. (nic_os PopenPermissionError)\<lparr>textfile_writable := (\<lambda>p. False)\<rparr>)
      ?opts = Some (1, [])"
    using th[where world = "\<lambda>n. (nic_os PopenPermissionError)\<lparr>textfile_writable := (\<lambda>p. False)\<rparr>"]
      p o t by simp
  from 1 2 3 p show ?thesis by blast
qed

section \<open>Counter parsing\<close>

lemma split_from_nonempty: "split_from sep acc s \<noteq> []"
  by (induction sep acc s rule: split_from.induct) auto

lemma split_from_no_sep:
  "\<not> sublist sep s \<Longrightarrow> split_from sep acc s = [acc @ s]"
proof (induction s arbitrary: acc)
  case Nil
  then show ?case by simp
next
  case (Cons c cs)
  then have "\<not> prefix sep (c # cs)" "\<not> sublist sep cs"
    by (auto simp: sublist_Cons_right)
  with Cons.IH[of "acc @ [c]"] show ?case by simp
qed

lemma split_from_has_sep:
  "sep \<noteq> [] \<Longrightarrow> sublist sep s \<Longrightarrow> 2 \<le> length (split_from sep acc s)"
proof (induction s arbitrary: acc)
  case Nil
  then show ?case by simp
next
  case (Cons c cs)
  show ?case
  proof (cases "prefix sep (c # cs)")
    case True
    with Cons.prems(1) split_from_nonempty[of sep "[]" "drop (length sep) (c # cs)"]
    show ?thesis by (cases "split_from sep [] (drop (length sep) (c # cs))") auto
  next
    case False
    with Cons.prems have "sublist sep cs" by (simp add: sublist_Cons_right)
    with Cons.IH[OF Cons.prems(1), of "acc @ [c]"] False show ?thesis by simp
  qed
qed

lemma split_from_single:
  assumes "sep \<noteq> []" "split_from sep acc s = [z]"
  shows "z = acc @ s \<and> \<not> sublist sep s"
proof -
  have n: "\<not> sublist sep s"
    using split_from_has_sep[OF assms(1), of s acc] assms(2) by auto
  with split_from_no_sep[OF n, of acc] assms(2) show ?thesis by simp
qed

lemma split_from_two:
  "sep \<noteq> [] \<Longrightarrow> split_from sep acc s = [x, y] \<Longrightarrow>
   \<exists>k. x = acc @ k \<and> s = k @ sep @ y \<and> \<not> sublist sep k \<and> \<not> sublist sep y"
proof (induction s arbitrary: acc)
  case Nil
  then show ?case by simp
next
  case (Cons c cs)
  show ?case
  proof (cases "prefix sep (c # cs)")
    case True
    with Cons.prems have x: "x = acc"
      and r: "split_from sep [] (drop (length sep) (c # cs)) = [y]" by auto
    from split_from_single[OF Cons.prems(1) r]
    have y: "y = drop (length sep) (c # cs)" and n: "\<not> sublist sep y" by auto
    from True have "c # cs = sep @ drop (length sep) (c # cs)"
      by (metis append_eq_conv_conj prefix_def)
    with y have "c # cs = [] @ sep @ y" by simp
    moreover have "\<not> sublist sep []" using Cons.prems(1) by simp
    ultimately show ?thesis using x n by blast
  next
    case False
    with Cons.prems have "split_from sep (acc @ [c]) cs = [x, y]" by simp
    from Cons.IH[OF Cons.prems(1) this] obtain k where k: "x = (acc @ [c]) @ k"
      "cs = k @ sep @ y" "\<not> sublist sep k" "\<not> sublist sep y" by blast
    have "\<not> prefix sep (c # k)"
    proof
      assume "prefix sep (c # k)"
      then have "prefix sep ((c # k) @ sep @ y)" by (rule prefix_prefix)
      with k(2) False show False by simp
    qed
    with k(3) have "\<not> sublist sep (c # k)" by (simp add: sublist_Cons_right)
    with k show ?thesis by (intro exI[of _ "c # k"]) simp
  qed
qed

text \<open>The separator \<open>': '\<close> cannot straddle the place where it was inserted.\<close>

lemma split_from_first:
  "\<not> sublist '': '' name \<Longrightarrow>
   split_from '': '' acc (name @ '': '' @ val) = (acc @ name) # split_from '': '' [] val"
proof (induction name arbitrary: acc)
  case Nil
  then show ?case by simp
next
  case (Cons c cs)
  then have np: "\<not> prefix '': '' (c # cs)" and ns: "\<not> sublist '': '' cs"
    by (auto simp: sublist_Cons_right)
  have "\<not> prefix '': '' (c # cs @ '': '' @ val)"
  proof (cases cs)
    case Nil
    then show ?thesis by simp
  next
    case (Cons d ds)
    with np show ?thesis by simp
  qed
  with Cons.IH[OF ns, of "acc @ [c]"] show ?case by simp
qed

lemma split_from_colon_space:
  "\<not> sublist '': '' name \<Longrightarrow> \<not> sublist '': '' val \<Longrightarrow>
   split_from '': '' acc (name @ '': '' @ val) = [acc @ name, val]"
  using split_from_first[of name acc val] split_from_no_sep[of "'': ''" val "[]"] by simp

lemma split_from_second_sep:
  assumes "\<not> sublist '': '' name" "sublist '': '' val"
  shows "py_split (name @ '': '' @ val) '': '' \<noteq> [x, y]"
proof -
  have "2 \<le> length (split_from '': '' [] val)"
    using assms(2) by (intro split_from_has_sep) simp_all
  then have "3 \<le> length (py_split (name @ '': '' @ val) '': '')"
    using split_from_first[OF assms(1), of "[]" val] by (simp add: py_split_def)
  then show ?thesis by auto
qed

lemma dropWhile_keeps: "c \<in> set xs \<Longrightarrow> \<not> P c \<Longrightarrow> c \<in> set (dropWhile P xs)"
  by (induction xs) auto

lemma py_strip_keeps: "c \<in> set s \<Longrightarrow> \<not> isspace c \<Longrightarrow> c \<in> set (py_strip s)"
  by (simp add: py_strip_def dropWhile_keeps)

lemma colon_not_space: "\<not> isspace CHR '':''"
  by (simp add: isspace_def)

lemma sep_has_colon: "sublist '': '' s \<Longrightarrow> CHR '':'' \<in> set s"
  by (auto simp: sublist_def)

lemma py_split_colon_space_iff:
  "(py_split s '': '' = [x, y]) =
   (s = x @ '': '' @ y \<and> \<not> sublist '': '' x \<and> \<not> sublist '': '' y)"
proof
  assume "py_split s '': '' = [x, y]"
  then have "split_from '': '' [] s = [x, y]" by (simp add: py_split_def)
  from split_from_two[OF _ this] show "s = x @ '': '' @ y \<and> \<not> sublist '': '' x \<and> \<not> sublist '': '' y"
    by auto
next
  assume "s = x @ '': '' @ y \<and> \<not> sublist '': '' x \<and> \<not> sublist '': '' y"
  then show "py_split s '': '' = [x, y]"
    using split_from_colon_space[of x y "[]"] by (simp add: py_split_def)
qed

lemma py_strip_header: "py_strip ''NIC statistics:'' = ''NIC statistics:''"
  by (simp add: py_strip_def isspace_def)

lemma header_no_sep: "\<not> sublist '': '' ''NIC statistics:''"
  unfolding py_in_sublist[symmetric] by simp

lemma parse_line_two:
  "py_split (py_strip line) '': '' = [x, y] \<Longrightarrow> line \<noteq> [] \<Longrightarrow> line \<noteq> ''NIC statistics:'' \<Longrightarrow>
   parse_line lib line =
     (case py_float lib (py_strip y) of
        None \<Rightarrow> Failed (py_strip line)
      | Some v \<Rightarrow> Parsed (py_strip x) v)"
  by (simp add: parse_line_def)

lemma parse_line_not_two:
  assumes "\<forall>x y. py_split (py_strip line) '': '' \<noteq> [x, y]"
    and "line \<noteq> []" "line \<noteq> ''NIC statistics:''"
  shows "parse_line lib line = Failed (py_strip line)"
proof (cases "py_split (py_strip line) '': ''")
  case Nil
  with assms show ?thesis by (simp add: parse_line_def)
next
  case (Cons x xs)
  show ?thesis
  proof (cases xs)
    case Nil
    with Cons assms show ?thesis by (simp add: parse_line_def)
  next
    case a: (Cons y ys)
    show ?thesis
    proof (cases ys)
      case Nil
      with Cons a assms show ?thesis by simp
    next
      case (Cons z zs)
      with \<open>py_split (py_strip line) '': '' = x # xs\<close> a assms show ?thesis
        by (simp add: parse_line_def)
    qed
  qed
qed

lemma parse_line_skipped_iff:
  "(parse_line lib line = Skipped) = (line = [] \<or> line = ''NIC statistics:'')"
proof (cases "line = [] \<or> line = ''NIC statistics:''")
  case True
  then show ?thesis by (auto simp: parse_line_def)
next
  case False
  show ?thesis
  proof (cases "\<exists>x y. py_split (py_strip line) '': '' = [x, y]")
    case True
    then obtain x y where "py_split (py_strip line) '': '' = [x, y]" by blast
    from parse_line_two[OF this, of lib] False show ?thesis
      by (auto split: option.splits)
  next
    case nt: False
    with parse_line_not_two[of line lib] False show ?thesis by auto
  qed
qed

lemma parse_line_parsed_iff:
  "(parse_line lib line = Parsed k v) =
   (\<exists>name val. py_strip line = name @ '': '' @ val \<and>
      \<not> sublist '': '' name \<and> \<not> sublist '': '' val \<and>
      k = py_strip name \<and> py_float lib (py_strip val) = Some v)"
proof
  assume p: "parse_line lib line = Parsed k v"
  then have ne: "line \<noteq> []" "line \<noteq> ''NIC statistics:''"
    by (auto simp: parse_line_def)
  have "\<exists>x y. py_split (py_strip line) '': '' = [x, y]"
  proof (rule ccontr)
    assume "\<not> (\<exists>x y. py_split (py_strip line) '': '' = [x, y])"
    with parse_line_not_two[of line lib] ne p show False by auto
  qed
  then obtain x y where xy: "py_split (py_strip line) '': '' = [x, y]" by blast
  from parse_line_two[OF xy ne, of lib] p
  have "k = py_strip x" "py_float lib (py_strip y) = Some v"
    by (auto split: option.splits)
  with xy show "\<exists>name val. py_strip line = name @ '': '' @ val \<and>
      \<not> sublist '': '' name \<and> \<not> sublist '': '' val \<and>
      k = py_strip name \<and> py_float lib (py_strip val) = Some v"
    unfolding py_split_colon_space_iff by blast
next
  assume "\<exists>name val. py_strip line = name @ '': '' @ val \<and>
      \<not> sublist '': '' name \<and> \<not> sublist '': '' val \<and>
      k = py_strip name \<and> py_float lib (py_strip val) = Some v"
  then obtain name val where s: "py_strip line = name @ '': '' @ val"
    and n: "\<not> sublist '': '' name" "\<not> sublist '': '' val"
    and k: "k = py_strip name" and f: "py_float lib (py_strip val) = Some v" by blast
  from s n have xy: "py_split (py_strip line) '': '' = [name, val]"
    unfolding py_split_colon_space_iff by simp
  have ne: "line \<noteq> []" using s by (auto simp: py_strip_def)
  have nh: "line \<noteq> ''NIC statistics:''"
  proof
    assume "line = ''NIC statistics:''"
    with s py_strip_header have "''NIC statistics:'' = name @ '': '' @ val" by simp
    then have "sublist '': '' ''NIC statistics:''" unfolding sublist_def by blast
    with header_no_sep show False by simp
  qed
  from parse_line_two[OF xy ne nh, of lib] k f show "parse_line lib line = Parsed k v" by simp
qed

lemma parse_line_failed:
  assumes "parse_line lib line = Failed w"
  shows "w = py_strip line"
proof (cases "line = [] \<or> line = ''NIC statistics:''")
  case True
  with assms show ?thesis by (auto simp: parse_line_def)
next
  case False
  show ?thesis
  proof (cases "\<exists>x y. py_split (py_strip line) '': '' = [x, y]")
    case True
    then obtain x y where "py_split (py_strip line) '': '' = [x, y]" by blast
    from parse_line_two[OF this, of lib] False assms show ?thesis
      by (auto split: option.splits)
  next
    case nt: False
    with parse_line_not_two[of line lib] False assms show ?thesis by auto
  qed
qed

lemma lines_loop_Skipped:
  "parse_line lib l = Skipped \<Longrightarrow>
   lines_loop lib a iface (l # ls) ks st = lines_loop lib a iface ls ks st"
  by simp

lemma lines_loop_Failed:
  "parse_line lib l = Failed w \<Longrightarrow>
   lines_loop lib a iface (l # ls) ks st =
     lines_loop lib a iface ls ks (st\<lparr>logs := logs st @ [WarnFailedParsing w]\<rparr>)"
  by simp

lemma lines_loop_raise:
  "parse_line lib l = Parsed k v \<Longrightarrow> whitelist_blacklist_check lib a k = Inl e \<Longrightarrow>
   lines_loop lib a iface (l # ls) ks st = (Some e, st)"
  by simp

lemma lines_loop_excluded:
  "parse_line lib l = Parsed k v \<Longrightarrow> whitelist_blacklist_check lib a k = Inr False \<Longrightarrow>
   lines_loop lib a iface (l # ls) ks st = lines_loop lib a iface ls ks st"
  by simp

lemma lines_loop_new:
  "parse_line lib l = Parsed k v \<Longrightarrow> whitelist_blacklist_check lib a k = Inr True \<Longrightarrow>
   k \<notin> ks \<Longrightarrow>
   lines_loop lib a iface (l # ls) ks st =
     lines_loop lib a iface ls (insert k ks) (st\<lparr>samples := samples st @ [([iface, k], v)]\<rparr>)"
  by simp

lemma lines_loop_dup:
  "parse_line lib l = Parsed k v \<Longrightarrow> whitelist_blacklist_check lib a k = Inr True \<Longrightarrow>
   k \<in> ks \<Longrightarrow>
   lines_loop lib a iface (l # ls) ks st =
     lines_loop lib a iface ls ks (st\<lparr>logs := logs st @ [WarnAlreadySeen k iface]\<rparr>)"
  by simp

lemma line_cases:
  obtains (skip) "parse_line lib l = Skipped"
  | (fail) w where "parse_line lib l = Failed w"
  | (raise) k v e where "parse_line lib l = Parsed k v" "whitelist_blacklist_check lib a k = Inl e"
  | (excl) k v where "parse_line lib l = Parsed k v" "whitelist_blacklist_check lib a k = Inr False"
  | (new) k v where "parse_line lib l = Parsed k v" "whitelist_blacklist_check lib a k = Inr True"
      "k \<notin> ks"
  | (dup) k v where "parse_line lib l = Parsed k v" "whitelist_blacklist_check lib a k = Inr True"
      "k \<in> ks"
proof (cases "parse_line lib l")
  case Skipped
  then show ?thesis by (rule skip)
next
  case (Failed w)
  then show ?thesis by (rule fail)
next
  case (Parsed k v)
  show ?thesis
  proof (cases "whitelist_blacklist_check lib a k")
    case (Inl e)
    with Parsed show ?thesis by (rule raise)
  next
    case (Inr ok)
    show ?thesis
    proof (cases ok)
      case True
      with Parsed Inr show ?thesis by (cases "k \<in> ks") (auto intro: new dup)
    next
      case False
      with Parsed Inr show ?thesis by (auto intro: excl)
    qed
  qed
qed

lemma lines_loop_logs_irrelevant:
  "samples st1 = samples st2 \<Longrightarrow>
   fst (lines_loop lib a iface ls ks st1) = fst (lines_loop lib a iface ls ks st2) \<and>
   samples (snd (lines_loop lib a iface ls ks st1)) =
     samples (snd (lines_loop lib a iface ls ks st2))"
proof (induction ls arbitrary: ks st1 st2)
  case Nil
  then show ?case by simp
next
  case (Cons l ls)
  show ?case
  proof (cases rule: line_cases[where lib = lib and l = l and a = a and ks = ks])
    case skip
    show ?thesis unfolding lines_loop_Skipped[OF skip] using Cons.prems by (rule Cons.IH)
  next
    case (fail w)
    show ?thesis unfolding lines_loop_Failed[OF fail]
      by (rule Cons.IH) (simp add: Cons.prems)
  next
    case (raise k v e)
    show ?thesis unfolding lines_loop_raise[OF raise] using Cons.prems by simp
  next
    case (excl k v)
    show ?thesis unfolding lines_loop_excluded[OF excl] using Cons.prems by (rule Cons.IH)
  next
    case (new k v)
    show ?thesis unfolding lines_loop_new[OF new]
      by (rule Cons.IH) (simp add: Cons.prems)
  next
    case (dup k v)
    show ?thesis unfolding lines_loop_dup[OF dup]
      by (rule Cons.IH) (simp add: Cons.prems)
  qed
qed

lemma lines_loop_drop_failed:
  assumes "parse_line lib bad = Failed w"
  shows "fst (lines_loop lib a iface (xs @ bad # ys) ks st) =
           fst (lines_loop lib a iface (xs @ ys) ks st) \<and>
         samples (snd (lines_loop lib a iface (xs @ bad # ys) ks st)) =
           samples (snd (lines_loop lib a iface (xs @ ys) ks st))"
proof (induction xs arbitrary: ks st)
  case Nil
  have "samples (st\<lparr>logs := logs st @ [WarnFailedParsing w]\<rparr>) = samples st" by simp
  from lines_loop_logs_irrelevant[OF this, of lib a iface ys ks]
  show ?case unfolding append_Nil lines_loop_Failed[OF assms] .
next
  case (Cons x xs)
  show ?case
  proof (cases rule: line_cases[where lib = lib and l = x and a = a and ks = ks])
    case skip
    show ?thesis unfolding append_Cons lines_loop_Skipped[OF skip] by (rule Cons.IH)
  next
    case (fail w)
    show ?thesis unfolding append_Cons lines_loop_Failed[OF fail] by (rule Cons.IH)
  next
    case (raise k v e)
    show ?thesis unfolding append_Cons lines_loop_raise[OF raise] by simp
  next
    case (excl k v)
    show ?thesis unfolding append_Cons lines_loop_excluded[OF excl] by (rule Cons.IH)
  next
    case (new k v)
    show ?thesis unfolding append_Cons lines_loop_new[OF new] by (rule Cons.IH)
  next
    case (dup k v)
    show ?thesis unfolding append_Cons lines_loop_dup[OF dup] by (rule Cons.IH)
  qed
qed



lemma form_not_skipped:
  assumes "py_strip line = name @ '': '' @ val"
  shows "line \<noteq> []" and "line \<noteq> ''NIC statistics:''"
proof -
  show "line \<noteq> []" using assms by (auto simp: py_strip_def)
  show "line \<noteq> ''NIC statistics:''"
  proof
    assume "line = ''NIC statistics:''"
    with assms py_strip_header have "''NIC statistics:'' = name @ '': '' @ val" by simp
    then have "sublist '': '' ''NIC statistics:''" unfolding sublist_def by blast
    with header_no_sep show False by simp
  qed
qed

lemma parse_line_no_sep:
  assumes "line \<noteq> []" "line \<noteq> ''NIC statistics:''" "\<not> sublist '': '' (py_strip line)"
  shows "parse_line lib line = Failed (py_strip line)"
proof (rule parse_line_not_two[OF _ assms(1,2)], intro allI notI)
  fix x y assume "py_split (py_strip line) '': '' = [x, y]"
  then have "py_strip line = x @ '': '' @ y" unfolding py_split_colon_space_iff by simp
  then have "sublist '': '' (py_strip line)" unfolding sublist_def by blast
  with assms(3) show False by simp
qed

lemma parse_line_bad_value:
  assumes s: "py_strip line = name @ '': '' @ val" and n: "\<not> sublist '': '' name"
    and f: "py_float lib (py_strip val) = None"
  shows "parse_line lib line = Failed (py_strip line)"
proof (cases "sublist '': '' val")
  case True
  have "\<forall>x y. py_split (py_strip line) '': '' \<noteq> [x, y]"
    unfolding s using split_from_second_sep[OF n True] by blast
  then show ?thesis using form_not_skipped[OF s] by (rule parse_line_not_two)
next
  case False
  with s n have "py_split (py_strip line) '': '' = [name, val]"
    unfolding py_split_colon_space_iff by simp
  from parse_line_two[OF this form_not_skipped[OF s], of lib] f show ?thesis by simp
qed

lemma parse_line_form:
  assumes s: "py_strip line = name @ '': '' @ val" and n: "\<not> sublist '': '' name"
    and f: "py_float lib (py_strip val) = Some v"
    and colon: "\<forall>s. CHR '':'' \<in> set s \<longrightarrow> py_float lib s = None"
  shows "parse_line lib line = Parsed (py_strip name) v"
proof -
  have "\<not> sublist '': '' val"
  proof
    assume "sublist '': '' val"
    then have "CHR '':'' \<in> set (py_strip val)"
      by (intro py_strip_keeps sep_has_colon colon_not_space)
    with colon f show False by simp
  qed
  with s n f show ?thesis unfolding parse_line_parsed_iff by blast
qed

lemma update_ethtool_stats_lines:
  "popen os [''/sbin/ethtool'', ''-S'', iface] = Exited 0 (Some out) \<Longrightarrow>
   update_ethtool_stats lib os a iface st =
     lines_loop lib a iface (py_split out [CHR 0x0A]) {} st"
  by (simp add: update_ethtool_stats_def)

lemma basic_float_rejects_colon: "CHR '':'' \<in> set s \<Longrightarrow> py_float basic_lib s = None"
proof -
  assume c: "CHR '':'' \<in> set s"
  have "\<not> float_char CHR '':''" by (simp add: float_char_def is_digit_def isspace_def)
  with c have "\<not> list_all float_char s" by (auto simp: list_all_iff)
  then show ?thesis by (simp add: basic_lib_def decimal_float_def)
qed

text \<open>
  Claim C2. A line whose stripped text is a name, the separator \<open>': '\<close> and a value that
  \<open>float\<close> accepts gives the pair of the stripped name and that float; the name is what
  stands before the first separator, and no string that \<open>float\<close> accepts contains a colon.
  Exactly the empty line and the header line are skipped without a warning. A line
  without the separator, and a line whose value part \<open>float\<close> rejects, fails with a warning
  that carries the stripped line. A line that fails changes nothing but the log: the loop
  goes on with the next line, and the samples and the outcome of the whole text are those
  of the text without that line. The text of an interface is handled line by line, split
  at newlines.
\<close>

theorem counter_line_parsing:
  "(py_strip line = name @ '': '' @ val \<and> \<not> sublist '': '' name \<and>
    py_float lib (py_strip val) = Some v \<and>
    (\<forall>s. CHR '':'' \<in> set s \<longrightarrow> py_float lib s = None) \<longrightarrow>
      parse_line lib line = Parsed (py_strip name) v) \<and>
   ((parse_line lib line = Parsed k v) =
      (\<exists>name val. py_strip line = name @ '': '' @ val \<and>
         \<not> sublist '': '' name \<and> \<not> sublist '': '' val \<and>
         k = py_strip name \<and> py_float lib (py_strip val) = Some v)) \<and>
   ((parse_line lib line = Skipped) = (line = [] \<or> line = ''NIC statistics:'')) \<and>
   (line \<noteq> [] \<and> line \<noteq> ''NIC statistics:'' \<and> \<not> sublist '': '' (py_strip line) \<longrightarrow>
      parse_line lib line = Failed (py_strip line)) \<and>
   (py_strip line = name @ '': '' @ val \<and> \<not> sublist '': '' name \<and>
    py_float lib (py_strip val) = None \<longrightarrow>
      parse_line lib line = Failed (py_strip line)) \<and>
   (parse_line lib bad = Failed w \<longrightarrow>
      lines_loop lib a iface (bad # ys) ks st =
        lines_loop lib a iface ys ks (st\<lparr>logs := logs st @ [WarnFailedParsing w]\<rparr>) \<and>
      fst (lines_loop lib a iface (xs @ bad # ys) ks st) =
        fst (lines_loop lib a iface (xs @ ys) ks st) \<and>
      samples (snd (lines_loop lib a iface (xs @ bad # ys) ks st)) =
        samples (snd (lines_loop lib a iface (xs @ ys) ks st))) \<and>
   (popen os [''/sbin/ethtool'', ''-S'', iface] = Exited 0 (Some out) \<longrightarrow>
      update_ethtool_stats lib os a iface st =
        lines_loop lib a iface (py_split out [CHR 0x0A]) {} st)"
proof -
  have 1: "parse_line lib line = Parsed (py_strip name) v"
    if "py_strip line = name @ '': '' @ val" "\<not> sublist '': '' name"
      "py_float lib (py_strip val) = Some v"
      "\<forall>s. CHR '':'' \<in> set s \<longrightarrow> py_float lib s = None"
    using that by (rule parse_line_form)
  note 2 = parse_line_parsed_iff[of lib line k v]
  note 3 = parse_line_skipped_iff[of lib line]
  have 4: "parse_line lib line = Failed (py_strip line)"
    if "line \<noteq> []" "line \<noteq> ''NIC statistics:''" "\<not> sublist '': '' (py_strip line)"
    using that by (rule parse_line_no_sep)
  have 5: "parse_line lib line = Failed (py_strip line)"
    if "py_strip line = name @ '': '' @ val" "\<not> sublist '': '' name"
      "py_float lib (py_strip val) = None"
    using that by (rule parse_line_bad_value)
  have 6: "lines_loop lib a iface (bad # ys) ks st =
        lines_loop lib a iface ys ks (st\<lparr>logs := logs st @ [WarnFailedParsing w]\<rparr>) \<and>
      fst (lines_loop lib a iface (xs @ bad # ys) ks st) =
        fst (lines_loop lib a iface (xs @ ys) ks st) \<and>
      samples (snd (lines_loop lib a iface (xs @ bad # ys) ks st)) =
        samples (snd (lines_loop lib a iface (xs @ ys) ks st))"
    if "parse_line lib bad = Failed w"
    using lines_loop_Failed[OF that] lines_loop_drop_failed[OF that] by blast
  have 7: "update_ethtool_stats lib os a iface st =
        lines_loop lib a iface (py_split out [CHR 0x0A]) {} st"
    if "popen os [''/sbin/ethtool'', ''-S'', iface] = Exited 0 (Some out)"
    using that by (rule update_ethtool_stats_lines)
  from 1 2 3 4 5 6 7 show ?thesis by blast
qed

theorem counter_line_parsing_witness:
  "parse_line basic_lib ''     rx_packets: 100'' = Parsed ''rx_packets'' 100 \<and>
   parse_line basic_lib '''' = Skipped \<and>
   parse_line basic_lib ''NIC statistics:'' = Skipped \<and>
   parse_line basic_lib ''no separator here'' = Failed ''no separator here'' \<and>
   parse_line basic_lib ''     rx_packets: xyz'' = Failed ''rx_packets: xyz'' \<and>
   samples (snd (lines_loop basic_lib default_args ''eth0''
      [''rx_errors: 0'', ''no separator here'', ''     rx_packets: 100''] {}
      \<lparr>samples = [], logs = []\<rparr>)) =
     [([''eth0'', ''rx_errors''], 0), ([''eth0'', ''rx_packets''], 100)] \<and>
   update_ethtool_stats basic_lib (nic_os (Exited 0 (Some example_output))) default_args ''eth0''
      \<lparr>samples = [], logs = []\<rparr> =
     (None, \<lparr>samples = [([''eth0'', ''rx_packets''], 100), ([''eth0'', ''rx_errors''], 0)],
             logs = [WarnAlreadySeen ''rx_packets'' ''eth0'']\<rparr>)"
proof -
  let ?st = "\<lparr>samples = [], logs = []\<rparr> :: real cstate"
  note ev = py_strip_def isspace_def
  note t = counter_line_parsing[where lib = basic_lib]
  have colon: "\<forall>s. CHR '':'' \<in> set s \<longrightarrow> py_float basic_lib s = None"
    using basic_float_rejects_colon by blast
  have s1: "py_strip ''     rx_packets: 100'' = ''rx_packets'' @ '': '' @ ''100''"
    and s2: "py_strip ''     rx_packets: xyz'' = ''rx_packets'' @ '': '' @ ''xyz''"
    and s3: "py_strip ''no separator here'' = ''no separator here''"
    and s4: "py_strip ''rx_packets'' = ''rx_packets''"
    by (simp_all add: ev)
  have n1: "\<not> sublist '': '' ''rx_packets''" and n3: "\<not> sublist '': '' ''no separator here''"
    unfolding py_in_sublist[symmetric] by simp_all
  have f1: "py_float basic_lib (py_strip ''100'') = Some 100"
    and f2: "py_float basic_lib (py_strip ''xyz'') = None"
    by (simp_all add: ev basic_lib_def decimal_float_def float_char_def is_digit_def decimal_def)
  have 1: "parse_line basic_lib ''     rx_packets: 100'' = Parsed ''rx_packets'' 100"
    using t[where line = "''     rx_packets: 100''" and name = "''rx_packets''" and val = "''100''"
        and v = 100] s1 s4 n1 f1 colon
    by simp
  have 2: "parse_line basic_lib '''' = Skipped"
    using t[where line = "''''"] by simp
  have 3: "parse_line basic_lib ''NIC statistics:'' = Skipped"
    using t[where line = "''NIC statistics:''"] by simp
  have 4: "parse_line basic_lib ''no separator here'' = Failed ''no separator here''"
    using t[where line = "''no separator here''"] s3 n3 by simp
  have 5: "parse_line basic_lib ''     rx_packets: xyz'' = Failed ''rx_packets: xyz''"
    using t[where line = "''     rx_packets: xyz''" and name = "''rx_packets''" and val = "''xyz''"]
      s2 n1 f2
    by simp
  have "samples (snd (lines_loop basic_lib default_args ''eth0''
      ([''rx_errors: 0''] @ ''no separator here'' # [''     rx_packets: 100'']) {} ?st)) =
     samples (snd (lines_loop basic_lib default_args ''eth0''
      ([''rx_errors: 0''] @ [''     rx_packets: 100'']) {} ?st))"
    using t[where bad = "''no separator here''" and w = "''no separator here''"
        and xs = "[''rx_errors: 0'']" and ys = "[''     rx_packets: 100'']" and a = default_args
        and iface = "''eth0''" and ks = "{}" and st = ?st] 4
    by blast
  moreover have "lines_loop basic_lib default_args ''eth0''
      ([''rx_errors: 0''] @ [''     rx_packets: 100'']) {} ?st =
     (None, \<lparr>samples = [([''eth0'', ''rx_errors''], 0), ([''eth0'', ''rx_packets''], 100)],
             logs = []\<rparr>)"
    by (simp add: py_split_def parse_line_def ev basic_lib_def decimal_float_def float_char_def
        is_digit_def decimal_def whitelist_blacklist_check_def default_args_def)
  ultimately have 6: "samples (snd (lines_loop basic_lib default_args ''eth0''
      [''rx_errors: 0'', ''no separator here'', ''     rx_packets: 100''] {} ?st)) =
     [([''eth0'', ''rx_errors''], 0), ([''eth0'', ''rx_packets''], 100)]"
    by simp
  have 7: "update_ethtool_stats basic_lib (nic_os (Exited 0 (Some example_output))) default_args
      ''eth0'' ?st =
     (None, \<lparr>samples = [([''eth0'', ''rx_packets''], 100), ([''eth0'', ''rx_errors''], 0)],
             logs = [WarnAlreadySeen ''rx_packets'' ''eth0'']\<rparr>)"
    using t[where os = "nic_os (Exited 0 (Some example_output))" and iface = "''eth0''"
        and out = example_output and a = default_args and st = ?st] example_lines
    by (simp add: nic_os_def)
  from 1 2 3 4 5 6 7 show ?thesis by blast
qed

section \<open>Duplicate counter names\<close>

lemma first_occurrences_subset: "set (first_occurrences xs) \<subseteq> set xs"
  by (induction xs rule: first_occurrences.induct) auto

lemma first_occurrences_distinct: "distinct (map fst (first_occurrences xs))"
proof (induction xs rule: first_occurrences.induct)
  case 1
  then show ?case by simp
next
  case (2 x xs)
  have "fst x \<notin> fst ` set (first_occurrences (filter (\<lambda>y. fst y \<noteq> fst x) xs))"
    using first_occurrences_subset[of "filter (\<lambda>y. fst y \<noteq> fst x) xs"] by auto
  with 2 show ?case by simp
qed

lemma map_of_filter_other:
  "k' \<noteq> k \<Longrightarrow> map_of (filter (\<lambda>y. fst y \<noteq> k) xs) k' = map_of xs k'"
  by (induction xs) auto

lemma first_occurrences_map_of: "map_of (first_occurrences xs) = map_of xs"
proof (induction xs rule: first_occurrences.induct)
  case 1
  then show ?case by simp
next
  case (2 x xs)
  show ?case
  proof
    fix k'
    show "map_of (first_occurrences (x # xs)) k' = map_of (x # xs) k'"
    proof (cases "k' = fst x")
      case True
      then show ?thesis by (cases x) simp
    next
      case False
      with 2 map_of_filter_other[OF False, of xs] show ?thesis by (cases x) simp
    qed
  qed
qed

lemma candidates_Nil: "candidates lib a [] = []"
  by (simp add: candidates_def)

lemma candidates_drop:
  "parse_line lib l = Skipped \<or> (\<exists>w. parse_line lib l = Failed w) \<or>
   (\<exists>k v. parse_line lib l = Parsed k v \<and> whitelist_blacklist_check lib a k \<noteq> Inr True) \<Longrightarrow>
   candidates lib a (l # ls) = candidates lib a ls"
  by (auto simp: candidates_def)

lemma candidates_keep:
  "parse_line lib l = Parsed k v \<Longrightarrow> whitelist_blacklist_check lib a k = Inr True \<Longrightarrow>
   candidates lib a (l # ls) = (k, v) # candidates lib a ls"
  by (simp add: candidates_def)

lemma lines_loop_first_occurrences:
  "lines_loop lib a iface ls ks st = (None, st') \<Longrightarrow>
   samples st' = samples st @
     map (\<lambda>(k, v). ([iface, k], v))
       (first_occurrences (filter (\<lambda>x. fst x \<notin> ks) (candidates lib a ls)))"
proof (induction ls arbitrary: ks st)
  case Nil
  then show ?case by (simp add: candidates_Nil)
next
  case (Cons l ls)
  show ?case
  proof (cases rule: line_cases[where lib = lib and l = l and a = a and ks = ks])
    case skip
    then have c: "candidates lib a (l # ls) = candidates lib a ls" by (intro candidates_drop) simp
    from Cons.prems show ?thesis
      unfolding lines_loop_Skipped[OF skip] c by (rule Cons.IH)
  next
    case (fail w)
    then have c: "candidates lib a (l # ls) = candidates lib a ls" by (intro candidates_drop) simp
    from Cons.prems have "samples st' =
      samples (st\<lparr>logs := logs st @ [WarnFailedParsing w]\<rparr>) @
        map (\<lambda>(k, v). ([iface, k], v))
          (first_occurrences (filter (\<lambda>x. fst x \<notin> ks) (candidates lib a ls)))"
      unfolding lines_loop_Failed[OF fail] by (rule Cons.IH)
    then show ?thesis unfolding c by simp
  next
    case (raise k v e)
    from Cons.prems show ?thesis unfolding lines_loop_raise[OF raise] by simp
  next
    case (excl k v)
    then have c: "candidates lib a (l # ls) = candidates lib a ls" by (intro candidates_drop) simp
    from Cons.prems show ?thesis
      unfolding lines_loop_excluded[OF excl] c by (rule Cons.IH)
  next
    case (new k v)
    have c: "candidates lib a (l # ls) = (k, v) # candidates lib a ls"
      using new(1,2) by (rule candidates_keep)
    have f: "filter (\<lambda>y. fst y \<noteq> k) (filter (\<lambda>x. fst x \<notin> ks) cs) =
        filter (\<lambda>x. fst x \<notin> insert k ks) cs" for cs :: "(string \<times> 'a) list"
      by (induction cs) auto
    from Cons.prems have "samples st' =
      samples (st\<lparr>samples := samples st @ [([iface, k], v)]\<rparr>) @
        map (\<lambda>(k, v). ([iface, k], v))
          (first_occurrences (filter (\<lambda>x. fst x \<notin> insert k ks) (candidates lib a ls)))"
      unfolding lines_loop_new[OF new] by (rule Cons.IH)
    moreover have "first_occurrences (filter (\<lambda>x. fst x \<notin> ks) ((k, v) # candidates lib a ls)) =
        (k, v) # first_occurrences (filter (\<lambda>x. fst x \<notin> insert k ks) (candidates lib a ls))"
      using new(3) by (simp add: conj_commute)
    ultimately show ?thesis unfolding c by simp
  next
    case (dup k v)
    have c: "candidates lib a (l # ls) = (k, v) # candidates lib a ls"
      using dup(1,2) by (rule candidates_keep)
    from Cons.prems have "samples st' =
      samples (st\<lparr>logs := logs st @ [WarnAlreadySeen k iface]\<rparr>) @
        map (\<lambda>(k, v). ([iface, k], v))
          (first_occurrences (filter (\<lambda>x. fst x \<notin> ks) (candidates lib a ls)))"
      unfolding lines_loop_dup[OF dup] by (rule Cons.IH)
    then show ?thesis unfolding c using dup(3) by simp
  qed
qed

lemma lines_loop_distinct:
  "\<exists>new. samples (snd (lines_loop lib a iface ls ks st)) =
            samples st @ map (\<lambda>(k, v). ([iface, k], v)) new \<and>
          distinct (map fst new) \<and> (\<forall>x \<in> set new. fst x \<notin> ks)"
proof (induction ls arbitrary: ks st)
  case Nil
  have "samples (snd (lines_loop lib a iface [] ks st)) =
      samples st @ map (\<lambda>(k, v). ([iface, k], v)) [] \<and>
      distinct (map fst ([] :: (string \<times> 'a) list)) \<and>
      (\<forall>x \<in> set ([] :: (string \<times> 'a) list). fst x \<notin> ks)" by simp
  then show ?case by blast
next
  case (Cons l ls)
  show ?case
  proof (cases rule: line_cases[where lib = lib and l = l and a = a and ks = ks])
    case skip
    show ?thesis unfolding lines_loop_Skipped[OF skip] by (rule Cons.IH)
  next
    case (fail w)
    from Cons.IH[of ks "st\<lparr>logs := logs st @ [WarnFailedParsing w]\<rparr>"]
    show ?thesis unfolding lines_loop_Failed[OF fail] by simp
  next
    case (raise k v e)
    have "samples st = samples st @ map (\<lambda>(k, v). ([iface, k], v)) [] \<and>
      distinct (map fst ([] :: (string \<times> 'a) list)) \<and>
      (\<forall>x \<in> set ([] :: (string \<times> 'a) list). fst x \<notin> ks)" by simp
    then show ?thesis unfolding lines_loop_raise[OF raise] snd_conv by blast
  next
    case (excl k v)
    show ?thesis unfolding lines_loop_excluded[OF excl] by (rule Cons.IH)
  next
    case (new k v)
    from Cons.IH[of "insert k ks" "st\<lparr>samples := samples st @ [([iface, k], v)]\<rparr>"]
    obtain new' where n: "samples (snd (lines_loop lib a iface ls (insert k ks)
          (st\<lparr>samples := samples st @ [([iface, k], v)]\<rparr>))) =
        samples (st\<lparr>samples := samples st @ [([iface, k], v)]\<rparr>) @
          map (\<lambda>(k, v). ([iface, k], v)) new'"
      and d: "distinct (map fst new')" and o: "\<forall>x \<in> set new'. fst x \<notin> insert k ks"
      by blast
    from n have "samples (snd (lines_loop lib a iface ls (insert k ks)
          (st\<lparr>samples := samples st @ [([iface, k], v)]\<rparr>))) =
        samples st @ map (\<lambda>(k, v). ([iface, k], v)) ((k, v) # new')" by simp
    moreover from d o have "distinct (map fst ((k, v) # new'))" by auto
    moreover from o new(3) have "\<forall>x \<in> set ((k, v) # new'). fst x \<notin> ks" by auto
    ultimately show ?thesis unfolding lines_loop_new[OF new] by blast
  next
    case (dup k v)
    from Cons.IH[of ks "st\<lparr>logs := logs st @ [WarnAlreadySeen k iface]\<rparr>"]
    show ?thesis unfolding lines_loop_dup[OF dup] by simp
  qed
qed

lemma update_distinct:
  "\<exists>new. samples (snd (update_ethtool_stats lib os a iface st)) =
            samples st @ map (\<lambda>(k, v). ([iface, k], v)) new \<and>
          distinct (map fst new)"
proof -
  have same: "\<exists>new. samples st = samples st @ map (\<lambda>(k, v). ([iface, k], v)) new \<and>
      distinct (map fst new)"
    by (rule exI[of _ "[]"]) simp
  show ?thesis
  proof (cases "popen os [''/sbin/ethtool'', ''-S'', iface]")
    case PopenFileNotFound
    with same show ?thesis by (simp add: update_ethtool_stats_def)
  next
    case PopenPermissionError
    with same show ?thesis by (simp add: update_ethtool_stats_def)
  next
    case PopenOSError
    with same show ?thesis by (simp add: update_ethtool_stats_def)
  next
    case (Exited rc data)
    show ?thesis
    proof (cases "rc \<noteq> 0")
      case True
      with Exited same show ?thesis by (simp add: update_ethtool_stats_def)
    next
      case False
      show ?thesis
      proof (cases data)
        case None
        with Exited False same show ?thesis by (simp add: update_ethtool_stats_def)
      next
        case (Some out)
        from lines_loop_distinct[of lib a iface "py_split out [CHR 0x0A]" "{}" st]
        obtain new where "samples (snd (lines_loop lib a iface (py_split out [CHR 0x0A]) {} st)) =
            samples st @ map (\<lambda>(k, v). ([iface, k], v)) new" "distinct (map fst new)"
          by blast
        with Exited False Some show ?thesis
          by (auto simp: update_ethtool_stats_def)
      qed
    qed
  qed
qed


lemma yields_simps:
  "yields [] = []" "yields (Yield i # xs) = i # yields xs" "yields (GenRaise e # xs) = yields xs"
  by (simp_all add: yields_def)

lemma find_loop_yields:
  "distinct fs \<Longrightarrow>
   distinct (yields (find_loop lib os a d fs)) \<and> set (yields (find_loop lib os a d fs)) \<subseteq> set fs"
proof (induction fs)
  case Nil
  then show ?case by (simp add: yields_simps)
next
  case (Cons f fs)
  then have ih: "distinct (yields (find_loop lib os a d fs))"
    "set (yields (find_loop lib os a d fs)) \<subseteq> set fs" and f: "f \<notin> set fs" by auto
  show ?case
  proof (cases "readlink os (os_path_join d f)")
    case None
    with ih show ?thesis by auto
  next
    case (Some target)
    show ?thesis
    proof (cases "py_in ''virtual'' target")
      case True
      with Some ih show ?thesis by auto
    next
      case False
      show ?thesis
      proof (cases "re_match lib (interface_regex a) f")
        case None
        with Some False show ?thesis by (simp add: yields_simps)
      next
        case m: (Some b)
        with Some False ih f show ?thesis by (cases b) (auto simp: yields_simps)
      qed
    qed
  qed
qed

lemma find_yields_distinct:
  "listdir os ''/sys/class/net'' = Some files \<Longrightarrow> distinct files \<Longrightarrow>
   distinct (yields (find_physical_interfaces lib os a))"
  using find_loop_yields[of files lib os a "''/sys/class/net''"]
  by (simp add: find_physical_interfaces_def)

lemma labels_after_update:
  assumes d: "distinct (map fst (samples st))"
    and o: "\<forall>l \<in> fst ` set (samples st). \<exists>i k. l = [i, k] \<and> i \<notin> set (iface # later)"
    and i: "iface \<notin> set later"
  shows "distinct (map fst (samples (snd (update_ethtool_stats lib os a iface st)))) \<and>
         (\<forall>l \<in> fst ` set (samples (snd (update_ethtool_stats lib os a iface st))).
            \<exists>i k. l = [i, k] \<and> i \<notin> set later)"
proof -
  from update_distinct[of lib os a iface st] obtain new
    where s: "samples (snd (update_ethtool_stats lib os a iface st)) =
        samples st @ map (\<lambda>(k, v). ([iface, k], v)) new"
      and dn: "distinct (map fst new)" by blast
  have m: "map fst (map (\<lambda>(k, v). ([iface, k], v)) new) = map (\<lambda>k. [iface, k]) (map fst new)"
    by (induction new) auto
  have dl: "distinct (map (\<lambda>k. [iface, k]) (map fst new))"
    using dn by (simp add: distinct_map inj_on_def)
  have disj: "set (map fst (samples st)) \<inter> set (map (\<lambda>k. [iface, k]) (map fst new)) = {}"
  proof (rule ccontr)
    assume "set (map fst (samples st)) \<inter> set (map (\<lambda>k. [iface, k]) (map fst new)) \<noteq> {}"
    then obtain l where l: "l \<in> fst ` set (samples st)" and "l \<in> set (map (\<lambda>k. [iface, k]) (map fst new))"
      by auto
    then obtain k where "l = [iface, k]" by auto
    with o l show False by auto
  qed
  have ms: "map fst (samples (snd (update_ethtool_stats lib os a iface st))) =
      map fst (samples st) @ map (\<lambda>k. [iface, k]) (map fst new)"
    by (simp only: s map_append m)
  have 1: "distinct (map fst (samples (snd (update_ethtool_stats lib os a iface st))))"
    unfolding ms distinct_append using d dl disj by blast
  have 2: "\<exists>i k. l = [i, k] \<and> i \<notin> set later"
    if "l \<in> fst ` set (samples (snd (update_ethtool_stats lib os a iface st)))" for l
  proof -
    from that have "l \<in> set (map fst (samples (snd (update_ethtool_stats lib os a iface st))))"
      by simp
    then have "l \<in> set (map fst (samples st)) \<or> l \<in> set (map (\<lambda>k. [iface, k]) (map fst new))"
      unfolding ms set_append by blast
    then show ?thesis
    proof
      assume "l \<in> set (map fst (samples st))"
      then have "l \<in> fst ` set (samples st)" by simp
      with o show ?thesis by auto
    next
      assume "l \<in> set (map (\<lambda>k. [iface, k]) (map fst new))"
      then obtain k where "l = [iface, k]" by auto
      with i show ?thesis by blast
    qed
  qed
  from 1 2 show ?thesis by blast
qed

lemma collect_loop_distinct:
  "distinct (yields items) \<Longrightarrow> distinct (map fst (samples st)) \<Longrightarrow>
   \<forall>l \<in> fst ` set (samples st). \<exists>i k. l = [i, k] \<and> i \<notin> set (yields items) \<Longrightarrow>
   distinct (map fst (samples (snd (collect_loop lib os a items st))))"
proof (induction items arbitrary: st)
  case Nil
  then show ?case by simp
next
  case (Cons x items)
  show ?case
  proof (cases x)
    case (GenRaise e)
    with Cons.prems show ?thesis by simp
  next
    case (Yield iface)
    with Cons.prems have dy: "distinct (yields items)" and i: "iface \<notin> set (yields items)"
      and o: "\<forall>l \<in> fst ` set (samples st). \<exists>i k. l = [i, k] \<and> i \<notin> set (iface # yields items)"
      by (simp_all add: yields_simps)
    obtain r st1 where u: "update_ethtool_stats lib os a iface st = (r, st1)"
      by (cases "update_ethtool_stats lib os a iface st")
    from labels_after_update[OF Cons.prems(2) o i, of lib os a] u
    have d1: "distinct (map fst (samples st1))"
      and o1: "\<forall>l \<in> fst ` set (samples st1). \<exists>i k. l = [i, k] \<and> i \<notin> set (yields items)"
      by simp_all
    show ?thesis
    proof (cases r)
      case None
      with Yield u Cons.IH[OF dy d1 o1] show ?thesis by simp
    next
      case (Some e)
      with Yield u d1 show ?thesis by simp
    qed
  qed
qed

lemma collect_distinct:
  "listdir os ''/sys/class/net'' = Some files \<Longrightarrow> distinct files \<Longrightarrow>
   distinct (map fst (samples (snd (collect lib os a))))"
  unfolding collect_def
  by (rule collect_loop_distinct) (simp_all add: find_yields_distinct)

lemma example_update:
  assumes f: "py_float lib ''100'' = Some x" "py_float lib ''0'' = Some y"
      "py_float lib ''999'' = Some z"
    and w: "\<not> truthy_str (whitelist_regex a)" "\<not> truthy_str (blacklist_regex a)"
    and p: "popen os [''/sbin/ethtool'', ''-S'', ''eth0''] = Exited 0 (Some example_output)"
  shows "update_ethtool_stats lib os a ''eth0'' st =
     (None, st\<lparr>samples := samples st @ [([''eth0'', ''rx_packets''], x), ([''eth0'', ''rx_errors''], y)],
              logs := logs st @ [WarnAlreadySeen ''rx_packets'' ''eth0'']\<rparr>)"
proof -
  have c: "whitelist_blacklist_check lib a k = Inr True" for k
    using w by (simp add: whitelist_blacklist_check_def)
  have sp: "py_split example_output [CHR 0x0A] =
      [''NIC statistics:'', ''rx_packets: 100'', ''rx_errors: 0'', ''rx_packets: 999'', '''']"
    by (simp add: example_output_def py_split_def)
  have p0: "parse_line lib ''NIC statistics:'' = Skipped" and p4: "parse_line lib '''' = Skipped"
    by (simp_all add: parse_line_def)
  have p1: "parse_line lib ''rx_packets: 100'' = Parsed ''rx_packets'' x"
    and p2: "parse_line lib ''rx_errors: 0'' = Parsed ''rx_errors'' y"
    and p3: "parse_line lib ''rx_packets: 999'' = Parsed ''rx_packets'' z"
    using f by (simp_all add: parse_line_def py_split_def py_strip_def isspace_def)
  show ?thesis
    unfolding update_ethtool_stats_lines[OF p] sp
    by (simp add: p0 p1 p2 p3 p4 c del: lines_loop.simps(2)
        add: lines_loop_Skipped lines_loop_new lines_loop_dup)
qed

text \<open>
  Claim C1. Whatever a call for one interface adds to the gauge has pairwise distinct
  counter names, and with the distinct entries that a directory listing has, the labels
  (interface, name) of the whole snapshot are pairwise distinct. When no exception ends
  the lines of an interface, the samples added are the first occurrences of the candidate
  pairs: every name once, with the value of its first occurrence. A name that is already
  in \<open>key_set\<close> adds no sample: the line is dropped with a warning and the loop goes on. The
  worked example gives exactly \<open>(eth0, rx_packets, float('100'))\<close> and
  \<open>(eth0, rx_errors, float('0'))\<close>, and one warning for the second \<open>rx_packets\<close> line.
\<close>

theorem duplicate_counters_first_wins:
  "(\<exists>new. samples (snd (update_ethtool_stats lib os a iface st)) =
            samples st @ map (\<lambda>(k, v). ([iface, k], v)) new \<and>
          distinct (map fst new)) \<and>
   (listdir os ''/sys/class/net'' = Some files \<and> distinct files \<longrightarrow>
      distinct (map fst (samples (snd (collect lib os a))))) \<and>
   (lines_loop lib a iface ls {} st = (None, st') \<longrightarrow>
      samples st' = samples st @
        map (\<lambda>(k, v). ([iface, k], v)) (first_occurrences (candidates lib a ls))) \<and>
   distinct (map fst (first_occurrences (candidates lib a ls))) \<and>
   map_of (first_occurrences (candidates lib a ls)) = map_of (candidates lib a ls) \<and>
   (parse_line lib l = Parsed k v \<and> whitelist_blacklist_check lib a k = Inr True \<and> k \<in> ks \<longrightarrow>
      lines_loop lib a iface (l # ls) ks st =
        lines_loop lib a iface ls ks (st\<lparr>logs := logs st @ [WarnAlreadySeen k iface]\<rparr>)) \<and>
   (py_float lib ''100'' = Some x \<and> py_float lib ''0'' = Some y \<and> py_float lib ''999'' = Some z \<and>
    \<not> truthy_str (whitelist_regex a) \<and> \<not> truthy_str (blacklist_regex a) \<and>
    popen os [''/sbin/ethtool'', ''-S'', ''eth0''] = Exited 0 (Some example_output) \<longrightarrow>
      update_ethtool_stats lib os a ''eth0'' st =
        (None, st\<lparr>samples := samples st @
                       [([''eth0'', ''rx_packets''], x), ([''eth0'', ''rx_errors''], y)],
                  logs := logs st @ [WarnAlreadySeen ''rx_packets'' ''eth0'']\<rparr>))"
proof -
  note 1 = update_distinct[of lib os a iface st]
  have 2: "distinct (map fst (samples (snd (collect lib os a))))"
    if "listdir os ''/sys/class/net'' = Some files" "distinct files"
    using that by (rule collect_distinct)
  have 3: "samples st' = samples st @
        map (\<lambda>(k, v). ([iface, k], v)) (first_occurrences (candidates lib a ls))"
    if "lines_loop lib a iface ls {} st = (None, st')"
    using lines_loop_first_occurrences[OF that] by simp
  note 4 = first_occurrences_distinct[of "candidates lib a ls"]
  note 5 = first_occurrences_map_of[of "candidates lib a ls"]
  have 6: "lines_loop lib a iface (l # ls) ks st =
        lines_loop lib a iface ls ks (st\<lparr>logs := logs st @ [WarnAlreadySeen k iface]\<rparr>)"
    if "parse_line lib l = Parsed k v" "whitelist_blacklist_check lib a k = Inr True" "k \<in> ks"
    using that by (rule lines_loop_dup)
  have 7: "update_ethtool_stats lib os a ''eth0'' st =
        (None, st\<lparr>samples := samples st @
                       [([''eth0'', ''rx_packets''], x), ([''eth0'', ''rx_errors''], y)],
                  logs := logs st @ [WarnAlreadySeen ''rx_packets'' ''eth0'']\<rparr>)"
    if "py_float lib ''100'' = Some x" "py_float lib ''0'' = Some y" "py_float lib ''999'' = Some z"
      "\<not> truthy_str (whitelist_regex a)" "\<not> truthy_str (blacklist_regex a)"
      "popen os [''/sbin/ethtool'', ''-S'', ''eth0''] = Exited 0 (Some example_output)"
    using that by (rule example_update)
  from 1 2 3 4 5 6 7 show ?thesis by blast
qed

theorem duplicate_counters_first_wins_witness:
  "first_occurrences (candidates basic_lib default_args
      [''rx_packets: 100'', ''rx_errors: 0'', ''rx_packets: 999'']) =
     [(''rx_packets'', 100), (''rx_errors'', 0)] \<and>
   map_of (candidates basic_lib default_args
      [''rx_packets: 100'', ''rx_errors: 0'', ''rx_packets: 999'']) ''rx_packets'' = Some 100 \<and>
   samples (snd (lines_loop basic_lib default_args ''eth0''
      [''rx_packets: 100'', ''rx_errors: 0'', ''rx_packets: 999''] {}
      \<lparr>samples = [], logs = []\<rparr>)) =
     [([''eth0'', ''rx_packets''], 100), ([''eth0'', ''rx_errors''], 0)] \<and>
   lines_loop basic_lib default_args ''eth0'' [''rx_packets: 999''] {''rx_packets''}
      \<lparr>samples = [([''eth0'', ''rx_packets''], 100)], logs = []\<rparr> =
     (None, \<lparr>samples = [([''eth0'', ''rx_packets''], 100)],
             logs = [WarnAlreadySeen ''rx_packets'' ''eth0'']\<rparr>) \<and>
   distinct (map fst (samples (snd (collect basic_lib
      (nic_os (Exited 0 (Some example_output))) default_args)))) \<and>
   snd (update_ethtool_stats basic_lib (nic_os (Exited 0 (Some example_output)))
      default_args ''eth0'' \<lparr>samples = [([''lo'', ''rx_packets''], 7)], logs = []\<rparr>) =
     \<lparr>samples = [([''lo'', ''rx_packets''], 7), ([''eth0'', ''rx_packets''], 100),
                 ([''eth0'', ''rx_errors''], 0)],
      logs = [WarnAlreadySeen ''rx_packets'' ''eth0'']\<rparr>"
proof -
  let ?ls = "[''rx_packets: 100'', ''rx_errors: 0'', ''rx_packets: 999'']"
  let ?st = "\<lparr>samples = [], logs = []\<rparr> :: real cstate"
  let ?st1 = "\<lparr>samples = [([''eth0'', ''rx_packets''], 100)], logs = []\<rparr> :: real cstate"
  let ?st2 = "\<lparr>samples = [([''lo'', ''rx_packets''], 7)], logs = []\<rparr> :: real cstate"
  let ?os = "nic_os (Exited 0 (Some example_output))"
  note fl = basic_lib_def decimal_float_def float_char_def is_digit_def decimal_def
  have f: "py_float basic_lib ''100'' = Some 100" "py_float basic_lib ''0'' = Some 0"
    "py_float basic_lib ''999'' = Some 999"
    by (simp_all add: fl)
  have w: "\<not> truthy_str (whitelist_regex default_args)"
    "\<not> truthy_str (blacklist_regex default_args)"
    by (simp_all add: default_args_def)
  have c: "whitelist_blacklist_check basic_lib default_args k = Inr True" for k
    using w by (simp add: whitelist_blacklist_check_def)
  have p1: "parse_line basic_lib ''rx_packets: 100'' = Parsed ''rx_packets'' 100"
    and p2: "parse_line basic_lib ''rx_errors: 0'' = Parsed ''rx_errors'' 0"
    and p3: "parse_line basic_lib ''rx_packets: 999'' = Parsed ''rx_packets'' 999"
    using f by (simp_all add: parse_line_def py_split_def py_strip_def isspace_def)
  have cs: "candidates basic_lib default_args ?ls =
      [(''rx_packets'', 100), (''rx_errors'', 0), (''rx_packets'', 999)]"
    by (simp add: candidates_def p1 p2 p3 c)
  have fo: "first_occurrences [(''rx_packets'', 100::real), (''rx_errors'', 0), (''rx_packets'', 999)] =
      [(''rx_packets'', 100), (''rx_errors'', 0)]"
    by simp
  obtain e st' where r: "lines_loop basic_lib default_args ''eth0'' ?ls {} ?st = (e, st')"
    by (cases "lines_loop basic_lib default_args ''eth0'' ?ls {} ?st")
  have e: "e = None"
    using r by (simp add: p1 p2 p3 c del: lines_loop.simps(2)
        add: lines_loop_new lines_loop_dup)
  note t = duplicate_counters_first_wins[where lib = basic_lib and os = "?os"
      and a = default_args and iface = "''eth0''" and files = "[''lo'', ''eth0'']"
      and l = "''rx_packets: 999''" and k = "''rx_packets''" and v = 999
      and ks = "{''rx_packets''}" and x = 100 and y = 0 and z = 999]
  have l: "listdir ?os ''/sys/class/net'' = Some [''lo'', ''eth0'']"
    and po: "popen ?os [''/sbin/ethtool'', ''-S'', ''eth0''] = Exited 0 (Some example_output)"
    by (simp_all add: nic_os_def)
  note ta = t[where ls = "?ls" and st = "?st" and st' = st']
  note tb = t[where ls = "[]" and st = "?st1" and st' = st']
  note tc = t[where ls = "?ls" and st = "?st2" and st' = st']
  have 1: "first_occurrences (candidates basic_lib default_args ?ls) =
      [(''rx_packets'', 100), (''rx_errors'', 0)]"
    unfolding cs by (rule fo)
  have m: "map_of (first_occurrences (candidates basic_lib default_args ?ls)) =
      map_of (candidates basic_lib default_args ?ls)"
    using ta by blast
  have "map_of (candidates basic_lib default_args ?ls) ''rx_packets'' =
      map_of (first_occurrences (candidates basic_lib default_args ?ls)) ''rx_packets''"
    unfolding m by (rule refl)
  also have "\<dots> = Some 100" unfolding 1 by simp
  finally have 2: "map_of (candidates basic_lib default_args ?ls) ''rx_packets'' = Some 100" .
  have r': "lines_loop basic_lib default_args ''eth0'' ?ls {} ?st = (None, st')"
    using r unfolding e .
  have "samples st' = samples ?st @
      map (\<lambda>(k, v). ([''eth0'', k], v)) (first_occurrences (candidates basic_lib default_args ?ls))"
    using ta r' by blast
  then have s': "samples st' = [([''eth0'', ''rx_packets''], 100), ([''eth0'', ''rx_errors''], 0)]"
    unfolding 1 by simp
  have 3: "samples (snd (lines_loop basic_lib default_args ''eth0'' ?ls {} ?st)) =
      [([''eth0'', ''rx_packets''], 100), ([''eth0'', ''rx_errors''], 0)]"
    unfolding r' using s' by simp
  have k: "''rx_packets'' \<in> {''rx_packets''}" by simp
  have "lines_loop basic_lib default_args ''eth0'' [''rx_packets: 999''] {''rx_packets''} ?st1 =
      lines_loop basic_lib default_args ''eth0'' [] {''rx_packets''}
        (?st1\<lparr>logs := logs ?st1 @ [WarnAlreadySeen ''rx_packets'' ''eth0'']\<rparr>)"
    using tb p3 c[of "''rx_packets''"] k by blast
  also have "\<dots> = (None, \<lparr>samples = [([''eth0'', ''rx_packets''], 100)],
              logs = [WarnAlreadySeen ''rx_packets'' ''eth0'']\<rparr>)"
    by simp
  finally have 4: "lines_loop basic_lib default_args ''eth0'' [''rx_packets: 999''] {''rx_packets''} ?st1 =
      (None, \<lparr>samples = [([''eth0'', ''rx_packets''], 100)],
              logs = [WarnAlreadySeen ''rx_packets'' ''eth0'']\<rparr>)" .
  have d: "distinct [''lo'', ''eth0'']" by simp
  have 5: "distinct (map fst (samples (snd (collect basic_lib ?os default_args))))"
    using ta l d by blast
  have "update_ethtool_stats basic_lib ?os default_args ''eth0'' ?st2 =
      (None, ?st2\<lparr>samples := samples ?st2 @
                       [([''eth0'', ''rx_packets''], 100), ([''eth0'', ''rx_errors''], 0)],
                  logs := logs ?st2 @ [WarnAlreadySeen ''rx_packets'' ''eth0'']\<rparr>)"
    using tc f w po by blast
  then have 6: "snd (update_ethtool_stats basic_lib ?os default_args ''eth0'' ?st2) =
      \<lparr>samples = [([''lo'', ''rx_packets''], 7), ([''eth0'', ''rx_packets''], 100),
                  ([''eth0'', ''rx_errors''], 0)],
       logs = [WarnAlreadySeen ''rx_packets'' ''eth0'']\<rparr>"
    by simp
  from 1 2 3 4 5 6 show ?thesis by blast
qed

end
